theory Spec2Isabelle
  imports Main "HOL-Library.Word"
begin

section \<open>Python strings\<close>

text \<open>
  A Python \<open>str\<close> is a sequence of Unicode code points, and \<open>len\<close>, indexing, slicing and
  the regular expressions of the program all count code points. A string is therefore a
  list of code points (natural numbers); \<open>str\<close> writes an ASCII literal of the source.
\<close>

type_synonym pystr = "nat list"

definition str :: "string \<Rightarrow> pystr" where
  "str s = map of_char s"

text \<open>Python's slice \<open>xs[:n]\<close>: a negative bound counts from the end.\<close>

definition py_take :: "int \<Rightarrow> 'a list \<Rightarrow> 'a list" where
  "py_take n xs = (if 0 \<le> n then take (nat n) xs else take (nat (int (length xs) + n)) xs)"

text \<open>\<open>sep.join(parts)\<close>.\<close>

fun join :: "pystr \<Rightarrow> pystr list \<Rightarrow> pystr" where
  "join sep [] = []"
| "join sep [p] = p"
| "join sep (p # q # ps) = p @ sep @ join sep (q # ps)"

text \<open>\<open>s.startswith(p)\<close>, \<open>p in s\<close> (substring test) and \<open>s.endswith(p)\<close>.\<close>

definition startswith :: "pystr \<Rightarrow> pystr \<Rightarrow> bool" where
  "startswith s p = (take (length p) s = p)"

fun contains :: "pystr \<Rightarrow> pystr \<Rightarrow> bool" where
  "contains [] p = (p = [])"
| "contains (c # cs) p = (startswith (c # cs) p \<or> contains cs p)"

definition endswith :: "pystr \<Rightarrow> pystr \<Rightarrow> bool" where
  "endswith s p = startswith (rev s) (rev p)"

text \<open>\<open>s.strip(chars)\<close> for a one-character \<open>chars\<close>, as in \<open>strip('_')\<close>.\<close>

definition strip_char :: "nat \<Rightarrow> pystr \<Rightarrow> pystr" where
  "strip_char c s = rev (dropWhile (\<lambda>x. x = c) (rev (dropWhile (\<lambda>x. x = c) s)))"

text \<open>\<open>str(n)\<close> for a non-negative integer: its decimal digits.\<close>

fun str_of_nat :: "nat \<Rightarrow> pystr" where
  "str_of_nat n = (if n < 10 then [48 + n] else str_of_nat (n div 10) @ [48 + n mod 10])"

declare str_of_nat.simps [simp del]

section \<open>Library functions the program calls\<close>

text \<open>
  \<open>s.encode('utf-8')\<close>: the bytes of the string, or \<open>None\<close> where Python raises
  \<open>UnicodeEncodeError\<close> (a surrogate code point; values beyond U+10FFFF are no code
  points at all).
\<close>

definition utf8_char :: "nat \<Rightarrow> nat list option" where
  "utf8_char c =
     (if c < 0x80 then Some [c]
      else if c < 0x800 then Some [0xC0 + c div 64, 0x80 + c mod 64]
      else if 0xD800 \<le> c \<and> c < 0xE000 then None
      else if c < 0x10000 then Some [0xE0 + c div 4096, 0x80 + (c div 64) mod 64, 0x80 + c mod 64]
      else if c < 0x110000 then
        Some [0xF0 + c div 262144, 0x80 + (c div 4096) mod 64, 0x80 + (c div 64) mod 64, 0x80 + c mod 64]
      else None)"

fun encode_utf8 :: "pystr \<Rightarrow> nat list option" where
  "encode_utf8 [] = Some []"
| "encode_utf8 (c # cs) =
     (case utf8_char c of None \<Rightarrow> None
      | Some b \<Rightarrow> (case encode_utf8 cs of None \<Rightarrow> None | Some bs \<Rightarrow> Some (b @ bs)))"

text \<open>
  \<open>hashlib.md5(b)\<close> is not code of the repository: the digest function is a parameter
  \<open>md5\<close> of the model, from a byte string to the 128-bit digest. \<open>hexdigest()\<close> prints the
  digest as 32 lower-case hexadecimal digits, first byte first.
\<close>

type_synonym md5_fun = "nat list \<Rightarrow> 128 word"

definition hex_digit :: "nat \<Rightarrow> nat" where
  "hex_digit n = (if n < 10 then 48 + n else 87 + n)"

definition hexdigest :: "128 word \<Rightarrow> pystr" where
  "hexdigest w = map (\<lambda>i. hex_digit (unat (take_bit 4 (drop_bit (4 * (31 - i)) w)))) [0..<32]"

definition hex_char :: "nat \<Rightarrow> bool" where
  "hex_char c = ((48 \<le> c \<and> c \<le> 57) \<or> (97 \<le> c \<and> c \<le> 102))"

text \<open>
  \<open>os.path.join(a, b)\<close> for two components and \<open>os.path.basename\<close>, with the separator
  \<open>/\<close> (code point 47) of \<open>posixpath\<close>.
\<close>

definition path_join :: "pystr \<Rightarrow> pystr \<Rightarrow> pystr" where
  "path_join a b =
     (if startswith b [47] then b
      else if a = [] \<or> last a = 47 then a @ b
      else a @ [47] @ b)"

definition basename :: "pystr \<Rightarrow> pystr" where
  "basename p = rev (takeWhile (\<lambda>c. c \<noteq> 47) (rev p))"

text \<open>
  \<open>datetime.now().strftime("%Y%m%d_%H%M%S")\<close>: the clock reading is a parameter of the
  model, the formatting is the zero-padded decimal one.
\<close>

record datetime =
  year :: nat
  month :: nat
  day :: nat
  hour :: nat
  minute :: nat
  second :: nat

definition pad :: "nat \<Rightarrow> nat \<Rightarrow> pystr" where
  "pad w n = replicate (w - length (str_of_nat n)) 48 @ str_of_nat n"

definition strftime_stamp :: "datetime \<Rightarrow> pystr" where
  "strftime_stamp t =
     pad 4 (year t) @ pad 2 (month t) @ pad 2 (day t) @ [95] @
     pad 2 (hour t) @ pad 2 (minute t) @ pad 2 (second t)"

datatype exn = UnicodeEncodeError | OSError

section \<open>Folder names: \<open>short_safe_folder\<close>\<close>

definition OUTPUT_BASE :: pystr where
  "OUTPUT_BASE = str ''outputs_final''"

text \<open>The character class \<open>[A-Za-z0-9_]\<close>.\<close>

definition safe_char :: "nat \<Rightarrow> bool" where
  "safe_char c = ((65 \<le> c \<and> c \<le> 90) \<or> (97 \<le> c \<and> c \<le> 122) \<or> (48 \<le> c \<and> c \<le> 57) \<or> c = 95)"

text \<open>\<open>re.sub(r'[^A-Za-z0-9_]', '_', title)\<close>.\<close>

definition sub_unsafe :: "pystr \<Rightarrow> pystr" where
  "sub_unsafe s = map (\<lambda>c. if safe_char c then c else 95) s"

text \<open>
  \<open>re.sub(r'_{2,}', '_', s)\<close>: scanning from the left, a greedy run of two or more
  underscores is replaced by one.
\<close>

function sub_underscores :: "pystr \<Rightarrow> pystr" where
  "sub_underscores [] = []"
| "sub_underscores (c # cs) =
     (if c = 95 \<and> startswith cs [95]
      then 95 # sub_underscores (dropWhile (\<lambda>x. x = 95) cs)
      else c # sub_underscores cs)"
  by pat_completeness auto
termination
  by (relation "measure length") (auto simp: length_dropWhile_le less_Suc_eq_le)

definition clean_title :: "pystr \<Rightarrow> pystr" where
  "clean_title title = strip_char 95 (sub_underscores (sub_unsafe title))"

text \<open>
  Lines 67 to 71: the name before the fallback. \<open>clean.encode('utf-8')\<close> is the one
  call that can raise.
\<close>

definition short_name :: "md5_fun \<Rightarrow> pystr \<Rightarrow> int \<Rightarrow> exn + pystr" where
  "short_name md5 clean max_len =
     (if int (length clean) \<le> max_len then Inr clean
      else
        (case encode_utf8 clean of
           None \<Rightarrow> Inl UnicodeEncodeError
         | Some b \<Rightarrow> Inr (py_take (max_len - 9) clean @ str ''_'' @ take 8 (hexdigest (md5 b)))))"

definition short_safe_folder ::
  "md5_fun \<Rightarrow> datetime \<Rightarrow> pystr \<Rightarrow> pystr \<Rightarrow> int \<Rightarrow> exn + pystr" where
  "short_safe_folder md5 now title0 base_dir max_len =
     (let title = (if title0 = [] then str ''article'' else title0);
          clean = clean_title title
      in case short_name md5 clean max_len of
           Inl e \<Rightarrow> Inl e
         | Inr short0 \<Rightarrow>
            (let short = (if short0 = [] then str ''article_'' @ strftime_stamp now else short0)
             in Inr (path_join base_dir short)))"

section \<open>Unicode tables\<close>

text \<open>
  The program leaves the classification of characters to the interpreter: \<open>str.strip\<close>
  and \<open>\s\<close> test \<open>Py_UNICODE_ISSPACE\<close>, \<open>\w\<close> is \<open>Py_UNICODE_ISALNUM\<close> or an underscore,
  \<open>str.lower\<close> maps each code point through the full lower-case mapping, except the
  capital sigma U+03A3, whose lower case depends on its position in the string, and an
  \<open>IGNORECASE\<close> pattern compares a literal with a character through the case tables of
  \<open>sre\<close>. These tables are no code of the repository: they are a parameter \<open>U\<close> of the
  model, and the theorems hold for every value of it.
\<close>

record unicode =
  isspace :: "nat \<Rightarrow> bool"
  isalnum :: "nat \<Rightarrow> bool"
  tolower_full :: "nat \<Rightarrow> pystr"
  final_sigma :: "pystr \<Rightarrow> nat \<Rightarrow> bool"
  ignorecase_eq :: "nat \<Rightarrow> nat \<Rightarrow> bool"

text \<open>\<open>s.strip()\<close>, \<open>s.lower()\<close> and the class \<open>\w\<close>.\<close>

definition strip :: "unicode \<Rightarrow> pystr \<Rightarrow> pystr" where
  "strip U s = rev (dropWhile (isspace U) (rev (dropWhile (isspace U) s)))"

definition lower :: "unicode \<Rightarrow> pystr \<Rightarrow> pystr" where
  "lower U s =
     concat (map (\<lambda>i. if s ! i = 0x3A3 then [if final_sigma U s i then 0x3C2 else 0x3C3]
                       else tolower_full U (s ! i)) [0..<length s])"

definition is_word :: "unicode \<Rightarrow> nat \<Rightarrow> bool" where
  "is_word U c = (isalnum U c \<or> c = 95)"

text \<open>
  \<open>re.search\<close> for the class of the code points U+0900 to U+097F (the Devanagari
  block), and the test of lines 88 and 110.
\<close>

definition has_devanagari :: "pystr \<Rightarrow> bool" where
  "has_devanagari s = list_ex (\<lambda>c. 0x900 \<le> c \<and> c \<le> 0x97F) s"

definition is_hindi :: "pystr \<Rightarrow> pystr \<Rightarrow> bool" where
  "is_hindi lang text = (startswith lang (str ''hi'') \<or> has_devanagari text)"

section \<open>Sentences: \<open>split_sentences\<close>\<close>

text \<open>
  Both patterns of \<open>re.split\<close> are alternations of two kinds of separator:
  \<open>(?<=[...])\s+\<close>, a greedy run of white space after one of the listed characters, and
  \<open>\n+\<close>, a greedy run of newlines. \<open>alt_len\<close> is the length of the match of one
  alternative at the current position (0 when it does not match), given the character
  before the position; \<open>match_len\<close> tries the alternatives in their order.
\<close>

datatype sep_alt = AfterSpaces "nat list" | Newlines

fun alt_len :: "unicode \<Rightarrow> sep_alt \<Rightarrow> nat option \<Rightarrow> pystr \<Rightarrow> nat" where
  "alt_len U (AfterSpaces T) None s = 0"
| "alt_len U (AfterSpaces T) (Some p) s =
     (if List.member T p then length (takeWhile (isspace U) s) else 0)"
| "alt_len U Newlines prev s = length (takeWhile (\<lambda>c. c = 10) s)"

fun match_len :: "unicode \<Rightarrow> sep_alt list \<Rightarrow> nat option \<Rightarrow> pystr \<Rightarrow> nat" where
  "match_len U [] prev s = 0"
| "match_len U (a # as) prev s =
     (if 0 < alt_len U a prev s then alt_len U a prev s else match_len U as prev s)"

text \<open>
  \<open>re.split(pattern, text)\<close>: the pieces between the separators, found from the left;
  \<open>prev\<close> is the character before the current position and \<open>acc\<close> the current piece,
  reversed.
\<close>

function re_split :: "unicode \<Rightarrow> sep_alt list \<Rightarrow> nat option \<Rightarrow> pystr \<Rightarrow> pystr \<Rightarrow> pystr list" where
  "re_split U alts prev acc [] = [rev acc]"
| "re_split U alts prev acc (c # cs) =
     (if match_len U alts prev (c # cs) = 0
      then re_split U alts (Some c) (c # acc) cs
      else rev acc #
           re_split U alts (Some ((c # cs) ! (match_len U alts prev (c # cs) - 1))) []
             (drop (match_len U alts prev (c # cs)) (c # cs)))"
  by pat_completeness auto
termination
  by (relation "measure (\<lambda>(U, alts, prev, acc, s). length s)") auto

text \<open>
  The two patterns. The source file holds the Devanagari literals of its Hindi branches
  in a doubly encoded form (the UTF-8 bytes of each character, read as Windows-1252
  characters); the model keeps the code points the file has. In the class of line 89
  they are U+00E0, U+00A5 and U+00A4, beside \<open>!\<close> and \<open>?\<close>.
\<close>

definition hi_pattern :: "sep_alt list" where
  "hi_pattern = [AfterSpaces [0xE0, 0xA5, 0xA4, 33, 63], AfterSpaces [33, 63], Newlines]"

definition en_pattern :: "sep_alt list" where
  "en_pattern = [AfterSpaces [46, 33, 63], Newlines]"

definition split_sentences :: "unicode \<Rightarrow> pystr \<Rightarrow> pystr \<Rightarrow> pystr list" where
  "split_sentences U text0 lang =
     (let text = strip U text0
      in if text = [] then []
         else
           (let sents = (if is_hindi lang text then re_split U hi_pattern None [] text
                         else re_split U en_pattern None [] text)
            in map (strip U) (filter (\<lambda>s. strip U s \<noteq> []) sents)))"

section \<open>The summary: \<open>extractive_summary\<close>\<close>

text \<open>\<open>re.findall(r'\w+', s)\<close>: the maximal runs of word characters, from the left.\<close>

fun words_from :: "unicode \<Rightarrow> pystr \<Rightarrow> pystr \<Rightarrow> pystr list" where
  "words_from U acc [] = (if acc = [] then [] else [rev acc])"
| "words_from U acc (c # cs) =
     (if is_word U c then words_from U (c # acc) cs
      else (if acc = [] then [] else [rev acc]) @ words_from U [] cs)"

definition findall_words :: "unicode \<Rightarrow> pystr \<Rightarrow> pystr list" where
  "findall_words U s = words_from U [] s"

text \<open>
  Lines 100 to 102: \<open>freq\<close> counts the lower-cased words of the whole text, and the score
  of a sentence is the sum of the counts of its words.
\<close>

definition freq :: "unicode \<Rightarrow> pystr \<Rightarrow> pystr \<Rightarrow> nat" where
  "freq U text w = count_list (map (lower U) (findall_words U text)) w"

definition score :: "unicode \<Rightarrow> pystr \<Rightarrow> pystr \<Rightarrow> nat" where
  "score U text s = sum_list (map (\<lambda>w. freq U text (lower U w)) (findall_words U s))"

text \<open>
  Line 103: \<open>sorted(scores, key=scores.get, reverse=True)\<close> sorts the indices
  \<open>0, ..., n - 1\<close> by falling score and keeps the order of indices with equal scores
  (\<open>reverse=True\<close> keeps the sort stable): the stable sort by the negated score.
  The slice \<open>[:max_sentences]\<close> follows, and line 104 sorts the chosen indices.
\<close>

definition top_idx :: "unicode \<Rightarrow> pystr \<Rightarrow> pystr list \<Rightarrow> int \<Rightarrow> nat list" where
  "top_idx U text sents max_sentences =
     py_take max_sentences
       (sort_key (\<lambda>i. - int (score U text (sents ! i))) [0..<length sents])"

definition top_sorted :: "unicode \<Rightarrow> pystr \<Rightarrow> pystr list \<Rightarrow> int \<Rightarrow> nat list" where
  "top_sorted U text sents max_sentences = sort (top_idx U text sents max_sentences)"

definition extractive_summary :: "unicode \<Rightarrow> pystr \<Rightarrow> int \<Rightarrow> pystr \<Rightarrow> pystr" where
  "extractive_summary U text max_sentences lang =
     (let sents = split_sentences U text lang
      in if sents = [] then []
         else if int (length sents) \<le> max_sentences then join (str '' '') sents
         else join (str '' '') (map (\<lambda>i. sents ! i) (top_sorted U text sents max_sentences)))"

section \<open>The paraphrase: \<open>paraphrase_text\<close>\<close>

text \<open>\<open>s.replace(k, v)\<close>: the occurrences of \<open>k\<close> from the left, without overlap.\<close>

function replace :: "pystr \<Rightarrow> pystr \<Rightarrow> pystr \<Rightarrow> pystr" where
  "replace k v [] = (if k = [] then v else [])"
| "replace k v (c # cs) =
     (if k = [] then v @ concat (map (\<lambda>x. x # v) (c # cs))
      else if startswith (c # cs) k then v @ replace k v (drop (length k) (c # cs))
      else c # replace k v cs)"
  by pat_completeness auto
termination
  by (relation "measure (\<lambda>(k, v, s). length s)") auto

text \<open>
  \<open>re.sub(r'\b' + re.escape(k) + r'\b', v, s, flags=re.IGNORECASE)\<close> for a key \<open>k\<close> of
  letters. \<open>\b\<close> holds between two positions of which exactly one is a word character
  (the outside of the string is none). \<open>match_word\<close> says that the pattern matches at the
  head of \<open>s\<close>, with \<open>prev\<close> the character before it; the scan replaces a match and goes on
  behind it.
\<close>

definition word_opt :: "unicode \<Rightarrow> nat option \<Rightarrow> bool" where
  "word_opt U x = (case x of None \<Rightarrow> False | Some c \<Rightarrow> is_word U c)"

definition match_word :: "unicode \<Rightarrow> pystr \<Rightarrow> nat option \<Rightarrow> pystr \<Rightarrow> bool" where
  "match_word U k prev s =
     (k \<noteq> [] \<and> length k \<le> length s
      \<and> word_opt U prev \<noteq> is_word U (hd s)
      \<and> list_all2 (ignorecase_eq U) k (take (length k) s)
      \<and> is_word U (s ! (length k - 1))
          \<noteq> word_opt U (if length k < length s then Some (s ! length k) else None))"

function sub_word :: "unicode \<Rightarrow> pystr \<Rightarrow> pystr \<Rightarrow> nat option \<Rightarrow> pystr \<Rightarrow> pystr" where
  "sub_word U k v prev [] = []"
| "sub_word U k v prev (c # cs) =
     (if match_word U k prev (c # cs)
      then v @ sub_word U k v (Some ((c # cs) ! (length k - 1))) (drop (length k) (c # cs))
      else c # sub_word U k v (Some c) cs)"
  by pat_completeness auto
termination
  by (relation "measure (\<lambda>(U, k, v, prev, s). length s)") (auto simp: match_word_def)

definition re_sub_word :: "unicode \<Rightarrow> pystr \<Rightarrow> pystr \<Rightarrow> pystr \<Rightarrow> pystr" where
  "re_sub_word U k v s = sub_word U k v None s"

text \<open>
  The two dictionaries, in the order of the dict literals (a \<open>for\<close> loop over
  \<open>syn.items()\<close> follows the insertion order). The keys and values of line 111, as the
  file has them (see above): the words \<open>kaha\<close>, \<open>bataya\<close>, \<open>suchit kiya\<close>, \<open>kiya\<close> and
  \<open>anjam diya\<close>.
\<close>

definition hi_kaha :: pystr where
  "hi_kaha = [0xE0, 0xA4, 0x2022, 0xE0, 0xA4, 0xB9, 0xE0, 0xA4, 0xBE]"

definition hi_bataya :: pystr where
  "hi_bataya = [0xE0, 0xA4, 0xAC, 0xE0, 0xA4, 0xA4, 0xE0, 0xA4, 0xBE, 0xE0, 0xA4, 0xAF,
                0xE0, 0xA4, 0xBE]"

definition hi_suchit_kiya :: pystr where
  "hi_suchit_kiya = [0xE0, 0xA4, 0xB8, 0xE0, 0xA5, 0x201A, 0xE0, 0xA4, 0x161, 0xE0, 0xA4, 0xBF,
                     0xE0, 0xA4, 0xA4, 0x20, 0xE0, 0xA4, 0x2022, 0xE0, 0xA4, 0xBF, 0xE0, 0xA4,
                     0xAF, 0xE0, 0xA4, 0xBE]"

definition hi_kiya :: pystr where
  "hi_kiya = [0xE0, 0xA4, 0x2022, 0xE0, 0xA4, 0xBF, 0xE0, 0xA4, 0xAF, 0xE0, 0xA4, 0xBE]"

definition hi_anjam_diya :: pystr where
  "hi_anjam_diya = [0xE0, 0xA4, 0x2026, 0xE0, 0xA4, 0x201A, 0xE0, 0xA4, 0x153, 0xE0, 0xA4, 0xBE,
                    0xE0, 0xA4, 0xAE, 0x20, 0xE0, 0xA4, 0xA6, 0xE0, 0xA4, 0xBF, 0xE0, 0xA4,
                    0xAF, 0xE0, 0xA4, 0xBE]"

definition syn_hi :: "(pystr \<times> pystr) list" where
  "syn_hi = [(hi_kaha, hi_bataya), (hi_bataya, hi_suchit_kiya), (hi_kiya, hi_anjam_diya)]"

definition syn_en :: "(pystr \<times> pystr) list" where
  "syn_en = [(str ''said'', str ''stated''), (str ''shows'', str ''reveals''),
             (str ''important'', str ''crucial''), (str ''use'', str ''utilize''),
             (str ''many'', str ''numerous'')]"

definition paraphrase_text :: "unicode \<Rightarrow> pystr \<Rightarrow> pystr \<Rightarrow> pystr" where
  "paraphrase_text U text lang =
     (if text = [] then []
      else if is_hindi lang text then fold (\<lambda>(k, v) out. replace k v out) syn_hi text
      else fold (\<lambda>(k, v) out. re_sub_word U k v out) syn_en text)"

text \<open>
  The text has a match of the pattern of key \<open>k\<close> somewhere: \<open>k\<close> occurs in it as a
  whole word, whatever the case of its letters.
\<close>

fun occurs_word :: "unicode \<Rightarrow> pystr \<Rightarrow> nat option \<Rightarrow> pystr \<Rightarrow> bool" where
  "occurs_word U k prev [] = False"
| "occurs_word U k prev (c # cs) = (match_word U k prev (c # cs) \<or> occurs_word U k (Some c) cs)"

definition contains_word :: "unicode \<Rightarrow> pystr \<Rightarrow> pystr \<Rightarrow> bool" where
  "contains_word U k s = occurs_word U k None s"

section \<open>The world outside the program\<close>

text \<open>
  The files on disk, as a map from paths to contents (bytes).
\<close>

type_synonym disk = "pystr \<rightharpoonup> nat list"

text \<open>
  An \<open>img\<close> tag of the parsed page, with the three attributes the harvester reads
  (\<open>None\<close> for an absent attribute).
\<close>

record img_tag =
  src_attr :: "pystr option"
  data_src_attr :: "pystr option"
  data_lazy_src_attr :: "pystr option"

text \<open>
  What the download of an image does: \<open>requests.get\<close> or \<open>raise_for_status\<close> raises
  (\<open>GetFailed\<close>), the body arrives whole (\<open>Body\<close>), or \<open>iter_content\<close> raises after a part
  of the body has been delivered (\<open>BrokenBody\<close>).
\<close>

datatype download = GetFailed | Body "nat list" | BrokenBody "nat list"

text \<open>
  What a document writer does: it leaves the file with the given content, or it raises
  an exception \<open>e\<close>, with \<open>str(e)\<close> the given message, and leaves at the path what it had
  written so far, if anything.
\<close>

datatype save_result = Saved "nat list" | SaveFailed pystr "nat list option"

text \<open>The answer of \<open>langdetect.detect\<close>: a language code, or one of two kinds of exception.\<close>

datatype detect_result = Detected pystr | LangDetectException | OtherException

text \<open>
  The calls into libraries, the network, the file system and the clock are parameters
  of the model, collected in one record:
  \<^item> \<open>fetch_requests url verify\<close>, \<open>cloudscraper_get url verify\<close>: the page text that
    \<open>fetch_requests\<close> and the scraper session of \<open>fetch_cloudscraper\<close> return, \<open>None\<close> when
    they raise; \<open>cloudscraper_installed\<close>: the import of line 20 succeeded;
  \<^item> \<open>fetch_selenium url headless wait\<close>: the page source the browser returns, or the
    message of the exception that \<open>fetch_selenium\<close> raises;
  \<^item> \<open>extract_text_from_html\<close>, \<open>extract_title_from_html\<close>, \<open>find_all_img\<close>: what
    BeautifulSoup finds in a page (the two functions of lines 200 to 219, and
    \<open>soup.find_all("img")\<close>);
  \<^item> \<open>langdetect\<close>: \<open>detect\<close>; \<open>image_get src verify\<close>: the download of an image;
  \<^item> \<open>path_suffix\<close>: \<open>Path(src).suffix\<close>; \<open>image_verifies\<close>: \<open>Image.open(path).verify()\<close>
    does not raise, for a file with the given content;
  \<^item> \<open>can_open\<close>, \<open>can_remove\<close>, \<open>can_makedirs\<close>: \<open>open(path, "wb")\<close>, \<open>os.remove(path)\<close>
    and \<open>os.makedirs(path, exist_ok=True)\<close> do not raise;
  \<^item> \<open>docx_writer\<close>, \<open>pdf_writer\<close>, \<open>text_writer\<close>: python-docx, fpdf and the text file
    \<open>write\<close>;
  \<^item> \<open>md5_of\<close> (\<open>hashlib.md5\<close>), the two clock readings (lines 73 and 357) and the Unicode tables.
\<close>

record env =
  fetch_requests :: "pystr \<Rightarrow> bool \<Rightarrow> pystr option"
  cloudscraper_installed :: bool
  cloudscraper_get :: "pystr \<Rightarrow> bool \<Rightarrow> pystr option"
  fetch_selenium :: "pystr \<Rightarrow> bool \<Rightarrow> int \<Rightarrow> pystr + pystr"
  extract_text_from_html :: "pystr \<Rightarrow> pystr"
  extract_title_from_html :: "pystr \<Rightarrow> pystr"
  find_all_img :: "pystr \<Rightarrow> img_tag list"
  langdetect :: "pystr \<Rightarrow> detect_result"
  image_get :: "pystr \<Rightarrow> bool \<Rightarrow> download"
  path_suffix :: "pystr \<Rightarrow> pystr"
  image_verifies :: "nat list \<Rightarrow> bool"
  can_open :: "pystr \<Rightarrow> bool"
  can_remove :: "pystr \<Rightarrow> bool"
  can_makedirs :: "pystr \<Rightarrow> bool"
  docx_writer :: "pystr \<Rightarrow> pystr \<Rightarrow> pystr \<Rightarrow> pystr \<Rightarrow> save_result"
  pdf_writer :: "pystr \<Rightarrow> pystr \<Rightarrow> pystr \<Rightarrow> pystr \<Rightarrow> save_result"
  text_writer :: "pystr \<Rightarrow> pystr \<Rightarrow> save_result"
  md5_of :: md5_fun
  now_folder :: datetime
  now_summary :: datetime
  tables :: unicode

text \<open>The options of the form (lines 300 to 305), read by the pipeline as globals.\<close>

record config =
  headless :: bool
  wait_time :: int
  summary_sentences :: int
  do_paraphrase :: bool
  ignore_ssl :: bool
  max_images :: int

section \<open>Language detection: \<open>detect_language\<close>\<close>

definition detect_language :: "env \<Rightarrow> pystr \<Rightarrow> pystr" where
  "detect_language E text =
     (case langdetect E (take 1000 text) of
        Detected l \<Rightarrow> l
      | LangDetectException \<Rightarrow> (if has_devanagari text then str ''hi'' else str ''en'')
      | OtherException \<Rightarrow> str ''en'')"

section \<open>Images: \<open>download_images_from_html\<close>\<close>

text \<open>\<open>a or b\<close> on optional strings: \<open>None\<close> and the empty string are false.\<close>

definition py_or :: "pystr option \<Rightarrow> pystr option \<Rightarrow> pystr option" where
  "py_or a b = (case a of None \<Rightarrow> b | Some s \<Rightarrow> (if s = [] then b else Some s))"

definition pick_src :: "img_tag \<Rightarrow> pystr option" where
  "pick_src img = py_or (src_attr img) (py_or (data_src_attr img) (data_lazy_src_attr img))"

text \<open>Lines 240 to 242: the extension and the path of the file of the next image.\<close>

definition image_ext :: "env \<Rightarrow> pystr \<Rightarrow> pystr" where
  "image_ext E src =
     (if path_suffix E src \<noteq> [] \<and> length (path_suffix E src) \<le> 6 then path_suffix E src
      else str ''.jpg'')"

definition image_path :: "env \<Rightarrow> pystr \<Rightarrow> nat \<Rightarrow> pystr \<Rightarrow> pystr" where
  "image_path E folder c src = path_join folder (str ''img_'' @ str_of_nat (c + 1) @ image_ext E src)"

text \<open>
  The \<open>try\<close> block of lines 237 to 257 for one image, with the disk it leaves:
  \<open>Raised\<close> when an exception reaches the handler of line 256, \<open>Rejected\<close> when the
  verification fails (the handler of line 250, which tries to remove the file and
  ignores a failure of the removal), \<open>Stored\<close> with the path when the image is kept.
\<close>

datatype attempt = Raised disk | Rejected disk | Stored pystr disk

definition try_image :: "env \<Rightarrow> pystr \<Rightarrow> bool \<Rightarrow> nat \<Rightarrow> pystr \<Rightarrow> disk \<Rightarrow> attempt" where
  "try_image E folder no_ssl c src d =
     (let outpath = image_path E folder c src
      in case image_get E src (\<not> no_ssl) of
           GetFailed \<Rightarrow> Raised d
         | BrokenBody b \<Rightarrow> (if can_open E outpath then Raised (d(outpath \<mapsto> b)) else Raised d)
         | Body b \<Rightarrow>
            (if \<not> can_open E outpath then Raised d
             else if image_verifies E b then Stored outpath (d(outpath \<mapsto> b))
             else if can_remove E outpath then Rejected ((d(outpath \<mapsto> b))(outpath := None))
             else Rejected (d(outpath \<mapsto> b))))"

text \<open>
  The loop of lines 228 to 257 over the remaining tags, with the list of saved paths,
  the counter \<open>c\<close> and the disk.
\<close>

fun harvest ::
  "env \<Rightarrow> pystr \<Rightarrow> bool \<Rightarrow> int \<Rightarrow> img_tag list \<Rightarrow> pystr list \<Rightarrow> nat \<Rightarrow> disk \<Rightarrow> pystr list \<times> disk" where
  "harvest E folder no_ssl maxi [] saved c d = (saved, d)"
| "harvest E folder no_ssl maxi (img # imgs) saved c d =
     (if maxi \<le> int c then (saved, d)
      else
        (case pick_src img of
           None \<Rightarrow> harvest E folder no_ssl maxi imgs saved c d
         | Some s \<Rightarrow>
            (if s = [] then harvest E folder no_ssl maxi imgs saved c d
             else if \<not> startswith (lower (tables E) (strip (tables E) s)) (str ''http'')
             then harvest E folder no_ssl maxi imgs saved c d
             else
               (case try_image E folder no_ssl c (strip (tables E) s) d of
                  Raised d' \<Rightarrow> harvest E folder no_ssl maxi imgs saved c d'
                | Rejected d' \<Rightarrow> harvest E folder no_ssl maxi imgs saved c d'
                | Stored p d' \<Rightarrow> harvest E folder no_ssl maxi imgs (saved @ [p]) (c + 1) d'))))"

definition download_images_from_html ::
  "env \<Rightarrow> pystr \<Rightarrow> pystr \<Rightarrow> bool \<Rightarrow> int \<Rightarrow> disk \<Rightarrow> pystr list \<times> disk" where
  "download_images_from_html E html folder no_ssl maxi d =
     harvest E folder no_ssl maxi (find_all_img E html) [] 0 d"

section \<open>Documents: \<open>save_docx\<close>, \<open>save_pdf\<close>, \<open>save_txt\<close>\<close>

text \<open>
  A writer run on a path: the message of the exception it raises, if any, and the disk
  it leaves.
\<close>

definition leave_partial :: "nat list option \<Rightarrow> pystr \<Rightarrow> disk \<Rightarrow> disk" where
  "leave_partial part path d = (case part of None \<Rightarrow> d | Some b \<Rightarrow> d(path \<mapsto> b))"

definition run_writer :: "save_result \<Rightarrow> pystr \<Rightarrow> disk \<Rightarrow> pystr option \<times> disk" where
  "run_writer r path d =
     (case r of
        Saved b \<Rightarrow> (None, d(path \<mapsto> b))
      | SaveFailed msg part \<Rightarrow> (Some msg, leave_partial part path d))"

definition save_docx :: "env \<Rightarrow> pystr \<Rightarrow> pystr \<Rightarrow> pystr \<Rightarrow> pystr \<Rightarrow> disk \<Rightarrow> pystr option \<times> disk" where
  "save_docx E title url summary filepath d =
     run_writer (docx_writer E title url summary filepath) filepath d"

definition save_pdf :: "env \<Rightarrow> pystr \<Rightarrow> pystr \<Rightarrow> pystr \<Rightarrow> pystr \<Rightarrow> disk \<Rightarrow> pystr option \<times> disk" where
  "save_pdf E title url summary filepath d =
     run_writer (pdf_writer E title url summary filepath) filepath d"

text \<open>The text of line 284, \<open>f"Title: {title}\\nURL: {url}\\n\\nSummary:\\n{summary}"\<close>.\<close>

definition txt_content :: "pystr \<Rightarrow> pystr \<Rightarrow> pystr \<Rightarrow> pystr" where
  "txt_content title url summary =
     str ''Title: '' @ title @ [10] @ str ''URL: '' @ url @ [10, 10] @ str ''Summary:'' @ [10] @ summary"

definition save_txt :: "env \<Rightarrow> pystr \<Rightarrow> pystr \<Rightarrow> pystr \<Rightarrow> pystr \<Rightarrow> disk \<Rightarrow> pystr option \<times> disk" where
  "save_txt E title url summary filepath d =
     run_writer (text_writer E filepath (txt_content title url summary)) filepath d"

section \<open>The pipeline: \<open>process_url_pipeline\<close>\<close>

text \<open>The result record of lines 368 to 377.\<close>

record output_bundle =
  b_url :: pystr
  b_title :: pystr
  b_folder :: pystr
  b_images :: "pystr list"
  b_docx :: pystr
  b_pdf :: pystr
  b_txt :: pystr
  b_summary :: pystr

definition fetch_cloudscraper :: "env \<Rightarrow> pystr \<Rightarrow> bool \<Rightarrow> pystr option" where
  "fetch_cloudscraper E url verify_ssl =
     (if \<not> cloudscraper_installed E then None else cloudscraper_get E url verify_ssl)"

text \<open>
  Lines 317 to 334, the three tiers: the HTML that reaches line 336, or the message of
  the exception of \<open>fetch_selenium\<close>.
\<close>

definition fetch_html :: "env \<Rightarrow> config \<Rightarrow> pystr \<Rightarrow> pystr + pystr" where
  "fetch_html E cfg url =
     (let html1 = fetch_requests E url (\<not> ignore_ssl cfg);
          html2 = (if html1 = None \<and> cloudscraper_installed E
                   then fetch_cloudscraper E url (\<not> ignore_ssl cfg) else html1)
      in case html2 of
           None \<Rightarrow> fetch_selenium E url (headless cfg) (wait_time cfg)
         | Some h \<Rightarrow>
            (if contains (lower (tables E) h) (str ''access denied'') \<or> contains h (str ''Request blocked'')
             then fetch_selenium E url (headless cfg) (wait_time cfg)
             else Inr h))"

text \<open>\<open>url.split("/")[-1]\<close>: what follows the last slash.\<close>

definition last_segment :: "pystr \<Rightarrow> pystr" where
  "last_segment url = rev (takeWhile (\<lambda>c. c \<noteq> 47) (rev url))"

text \<open>Line 347: \<open>extract_title_from_html(html) or url.split("/")[-1] or "article"\<close>.\<close>

definition page_title :: "env \<Rightarrow> pystr \<Rightarrow> pystr \<Rightarrow> pystr" where
  "page_title E html url =
     (if extract_title_from_html E html \<noteq> [] then extract_title_from_html E html
      else if last_segment url \<noteq> [] then last_segment url
      else str ''article'')"

text \<open>
  Lines 348 to 353: the folder. When \<open>os.makedirs\<close> raises, the folder named by the hash
  of the title is tried; an exception there is not caught.
\<close>

definition make_folder :: "env \<Rightarrow> pystr \<Rightarrow> exn + pystr" where
  "make_folder E title =
     (case short_safe_folder (md5_of E) (now_folder E) title OUTPUT_BASE 60 of
        Inl e \<Rightarrow> Inl e
      | Inr folder \<Rightarrow>
         (if can_makedirs E folder then Inr folder
          else
            (case encode_utf8 title of
               None \<Rightarrow> Inl UnicodeEncodeError
             | Some b \<Rightarrow>
                (if can_makedirs E (path_join OUTPUT_BASE (str ''article_'' @ take 8 (hexdigest (md5_of E b))))
                 then Inr (path_join OUTPUT_BASE (str ''article_'' @ take 8 (hexdigest (md5_of E b))))
                 else Inl OSError))))"

text \<open>
  Lines 357 to 360: the path of a document, \<open>os.path.join(folder, f"summary_{ts}.docx")\<close>
  and its two siblings.
\<close>

definition doc_path :: "env \<Rightarrow> pystr \<Rightarrow> pystr \<Rightarrow> pystr" where
  "doc_path E folder ext = path_join folder (str ''summary_'' @ strftime_stamp (now_summary E) @ ext)"

text \<open>
  Lines 361 to 377: the three writes in their \<open>try\<close> block and the result. The first
  exception ends the block.
\<close>

definition save_outputs ::
  "env \<Rightarrow> pystr \<Rightarrow> pystr \<Rightarrow> pystr \<Rightarrow> pystr list \<Rightarrow> pystr \<Rightarrow> disk \<Rightarrow> (output_bundle option \<times> pystr) \<times> disk" where
  "save_outputs E url title folder images paraphrased d =
     (let docx_path = doc_path E folder (str ''.docx'');
          pdf_path = doc_path E folder (str ''.pdf'');
          txt_path = doc_path E folder (str ''.txt'')
      in case save_docx E title url paraphrased docx_path d of
           (Some e, d1) \<Rightarrow> ((None, str ''save_error: '' @ e), d1)
         | (None, d1) \<Rightarrow>
            (case save_pdf E title url paraphrased pdf_path d1 of
               (Some e, d2) \<Rightarrow> ((None, str ''save_error: '' @ e), d2)
             | (None, d2) \<Rightarrow>
                (case save_txt E title url paraphrased txt_path d2 of
                   (Some e, d3) \<Rightarrow> ((None, str ''save_error: '' @ e), d3)
                 | (None, d3) \<Rightarrow>
                    ((Some \<lparr>b_url = url, b_title = title, b_folder = folder, b_images = images,
                            b_docx = docx_path, b_pdf = pdf_path, b_txt = txt_path,
                            b_summary = paraphrased\<rparr>,
                      str ''ok''), d3))))"

text \<open>Lines 343 to 346: text, language, summary and paraphrase of a page.\<close>

definition page_summary :: "env \<Rightarrow> config \<Rightarrow> pystr \<Rightarrow> pystr" where
  "page_summary E cfg html =
     (let text = extract_text_from_html E html;
          lang = detect_language E text;
          summary = extractive_summary (tables E) text (summary_sentences cfg) lang
      in if do_paraphrase cfg then paraphrase_text (tables E) summary lang else summary)"

text \<open>
  Lines 343 to 377, from the HTML that passed the checks: summary, title, folder, images
  and documents. An exception that no handler catches is the result \<open>Inl\<close>.
\<close>

definition process_html ::
  "env \<Rightarrow> config \<Rightarrow> pystr \<Rightarrow> pystr \<Rightarrow> disk \<Rightarrow> (exn + output_bundle option \<times> pystr) \<times> disk" where
  "process_html E cfg url html d =
     (let paraphrased = page_summary E cfg html;
          title = page_title E html url
      in case make_folder E title of
           Inl e \<Rightarrow> (Inl e, d)
         | Inr folder \<Rightarrow>
            (case download_images_from_html E html folder (ignore_ssl cfg) (max_images cfg) d of
               (images, d1) \<Rightarrow>
                 (case save_outputs E url title folder images paraphrased d1 of
                    (r, d2) \<Rightarrow> (Inr r, d2))))"

definition process_url_pipeline ::
  "env \<Rightarrow> config \<Rightarrow> pystr \<Rightarrow> disk \<Rightarrow> (exn + output_bundle option \<times> pystr) \<times> disk" where
  "process_url_pipeline E cfg url0 d =
     (let url = strip (tables E) url0
      in if url = [] then (Inr (None, str ''empty''), d)
         else
           (case fetch_html E cfg url of
              Inl e \<Rightarrow> (Inr (None, str ''fetch_error: '' @ e), d)
            | Inr html \<Rightarrow>
               (if html = [] then (Inr (None, str ''no_html''), d)
                else if contains (lower (tables E) html) (str ''access denied'')
                        \<and> contains (lower (tables E) html) (str ''reference'')
                then (Inr (None, str ''access_denied''), d)
                else process_html E cfg url html d)))"

section \<open>Concrete parameters for the worked examples\<close>

text \<open>
  The theorems hold for every digest function, every clock reading and every table of
  characters. The worked examples fix one of each: a digest function with a constant
  value, one date, and the tables of CPython on the code points below 128 (the examples
  are ASCII texts), with every other code point taken as a caseless character that is
  neither white space nor alphanumeric.
\<close>

definition example_md5 :: md5_fun where
  "example_md5 b = 0x0123456789abcdef0123456789abcdef"

definition example_now :: datetime where
  "example_now = \<lparr>year = 2024, month = 3, day = 9, hour = 14, minute = 5, second = 7\<rparr>"

definition ascii_lower :: "nat \<Rightarrow> nat" where
  "ascii_lower c = (if 65 \<le> c \<and> c \<le> 90 then c + 32 else c)"

definition ascii_tables :: unicode where
  "ascii_tables =
     \<lparr>isspace = (\<lambda>c. (9 \<le> c \<and> c \<le> 13) \<or> (28 \<le> c \<and> c \<le> 32)),
      isalnum = (\<lambda>c. (48 \<le> c \<and> c \<le> 57) \<or> (65 \<le> c \<and> c \<le> 90) \<or> (97 \<le> c \<and> c \<le> 122)),
      tolower_full = (\<lambda>c. [ascii_lower c]),
      final_sigma = (\<lambda>s i. False),
      ignorecase_eq = (\<lambda>p c. ascii_lower c = ascii_lower p)\<rparr>"

text \<open>
  A world for the worked examples. Every plain request is answered: the address
  \<open>http://a/denied\<close> with a page of a content filter, every other address with a small
  page, in which BeautifulSoup finds the text \<open>Hi.\<close>, the title \<open>News\<close> and two images.
  The browser returns the page of the content filter. The first image is not an image
  file (its verification fails), the second is one; the suffix of an address is taken
  to be its last four characters. Directories and files can be created
  and removed; the DOCX and the text writer succeed, the PDF writer raises an exception
  with the message \<open>latin-1\<close> before it writes.
\<close>

definition bad_img :: img_tag where
  "bad_img = \<lparr>src_attr = Some (str ''http://a/bad.gif''), data_src_attr = None,
               data_lazy_src_attr = None\<rparr>"

definition good_img :: img_tag where
  "good_img = \<lparr>src_attr = None, data_src_attr = Some (str '' http://a/ok.png ''),
                data_lazy_src_attr = None\<rparr>"

definition example_env :: env where
  "example_env =
     \<lparr>fetch_requests = (\<lambda>url verify. if url = str ''http://a/denied''
                                      then Some (str ''Access Denied - Reference 18'')
                                      else Some (str ''<p>Hi.</p>'')),
      cloudscraper_installed = False,
      cloudscraper_get = (\<lambda>url verify. None),
      fetch_selenium = (\<lambda>url hl wt. Inr (str ''Access Denied - Reference 18'')),
      extract_text_from_html = (\<lambda>html. str ''Hi.''),
      extract_title_from_html = (\<lambda>html. str ''News''),
      find_all_img = (\<lambda>html. [bad_img, good_img]),
      langdetect = (\<lambda>text. Detected (str ''en'')),
      image_get = (\<lambda>src verify. if src = str ''http://a/bad.gif'' then Body [60, 104, 62]
                                   else Body [137, 80, 78, 71]),
      path_suffix = (\<lambda>src. drop (length src - 4) src),
      image_verifies = (\<lambda>b. b = [137, 80, 78, 71]),
      can_open = (\<lambda>path. True),
      can_remove = (\<lambda>path. True),
      can_makedirs = (\<lambda>path. True),
      docx_writer = (\<lambda>title url summary path. Saved [80, 75]),
      pdf_writer = (\<lambda>title url summary path. SaveFailed (str ''latin-1'') None),
      text_writer = (\<lambda>path content. Saved content),
      md5_of = example_md5,
      now_folder = example_now,
      now_summary = example_now,
      tables = ascii_tables\<rparr>"

definition example_config :: config where
  "example_config =
     \<lparr>headless = True, wait_time = 5, summary_sentences = 50, do_paraphrase = True,
      ignore_ssl = True, max_images = 50\<rparr>"

section \<open>Properties of the folder names\<close>

lemma set_sub_underscores: "set (sub_underscores s) \<subseteq> set s"
proof (induction s rule: sub_underscores.induct)
  case 1
  show ?case by simp
next
  case (2 c cs)
  have "set (dropWhile (\<lambda>x. x = 95) cs) \<subseteq> set cs"
    by (simp add: set_dropWhileD subsetI)
  with 2 show ?case by auto
qed

lemma set_strip_char: "set (strip_char c s) \<subseteq> set s"
  unfolding strip_char_def
  by (metis set_dropWhileD set_rev subsetI)

lemma safe_clean_title: "list_all safe_char (clean_title t)"
proof -
  have "\<forall>c\<in>set (sub_unsafe t). safe_char c"
    by (auto simp: sub_unsafe_def safe_char_def)
  then show ?thesis
    unfolding clean_title_def list_all_iff
    using set_sub_underscores set_strip_char by blast
qed

lemma utf8_ascii: "list_all (\<lambda>c. c < 128) s \<Longrightarrow> encode_utf8 s = Some s"
  by (induction s) (auto simp: utf8_char_def)

lemma safe_char_ascii: "safe_char c \<Longrightarrow> c < 128"
  by (auto simp: safe_char_def)

lemma encode_clean_title: "encode_utf8 (clean_title t) = Some (clean_title t)"
  by (rule utf8_ascii) (metis (mono_tags, lifting) list_all_iff safe_clean_title safe_char_ascii)

lemma basename_path_join: "47 \<notin> set b \<Longrightarrow> basename (path_join a b) = b"
proof -
  assume b: "47 \<notin> set b"
  then have nb: "\<not> startswith b [47]"
    by (cases b) (auto simp: startswith_def)
  have tw: "takeWhile (\<lambda>c. c \<noteq> 47) (rev b @ ys) = rev b @ takeWhile (\<lambda>c. c \<noteq> 47) ys" for ys
    using b by (intro takeWhile_append2) auto
  show ?thesis
  proof (cases "a = [] \<or> last a = 47")
    case True
    then have "takeWhile (\<lambda>c. c \<noteq> 47) (rev a) = []"
      by (cases a rule: rev_cases) auto
    with True nb show ?thesis
      by (simp add: path_join_def basename_def tw)
  next
    case False
    with nb show ?thesis
      by (simp add: path_join_def basename_def tw)
  qed
qed

lemma hex_digit_range: "n < 16 \<Longrightarrow> (48 \<le> hex_digit n \<and> hex_digit n \<le> 57) \<or> (97 \<le> hex_digit n \<and> hex_digit n \<le> 102)"
  by (auto simp: hex_digit_def)

lemma nibble_less: "unat (take_bit 4 (w :: 128 word)) < 16"
  using take_bit_nat_less_exp [of 4 "unat w"] by (simp add: unsigned_take_bit_eq)

lemma length_hexdigest: "length (hexdigest w) = 32"
  by (simp add: hexdigest_def)

lemma hex_hexdigest: "list_all hex_char (hexdigest w)"
  unfolding hexdigest_def list_all_iff hex_char_def
  using hex_digit_range nibble_less by auto

lemma hex_char_not_sep: "hex_char c \<Longrightarrow> c \<noteq> 47"
  by (auto simp: hex_char_def)

lemma safe_char_not_sep: "safe_char c \<Longrightarrow> c \<noteq> 47"
  by (auto simp: safe_char_def)

lemma str_of_nat_digits: "list_all (\<lambda>c. 48 \<le> c \<and> c \<le> 57) (str_of_nat n)"
proof (induction n rule: str_of_nat.induct)
  case (1 n)
  show ?case
  proof (cases "n < 10")
    case True
    then show ?thesis by (subst str_of_nat.simps) simp
  next
    case False
    have "n mod 10 < 10" by simp
    then have "48 + n mod 10 \<le> 57" by linarith
    with False 1 show ?thesis by (subst str_of_nat.simps) simp
  qed
qed

lemma pad_no_sep: "47 \<notin> set (pad w n)"
  using str_of_nat_digits [of n] by (auto simp: pad_def list_all_iff)

lemma stamp_no_sep: "47 \<notin> set (strftime_stamp t)"
  by (simp add: strftime_stamp_def pad_no_sep)

text \<open>
  Claim C7. When the cleaned title (every character outside \<open>[A-Za-z0-9_]\<close> replaced by
  an underscore, runs of underscores collapsed, outer underscores stripped) has more than
  60 characters, \<open>short_safe_folder\<close> returns normally, and the basename of the folder is
  the first 51 characters of the cleaned title, an underscore and the first 8 hexadecimal
  digits of the digest of the cleaned title: 60 characters in all.
\<close>

theorem short_safe_folder_long_title:
  assumes long: "60 < length (clean_title title)"
  shows "short_safe_folder md5 now title base_dir 60 =
           Inr (path_join base_dir
                  (take 51 (clean_title title) @ [95] @ take 8 (hexdigest (md5 (clean_title title)))))
         \<and> basename (path_join base_dir
                  (take 51 (clean_title title) @ [95] @ take 8 (hexdigest (md5 (clean_title title)))))
             = take 51 (clean_title title) @ [95] @ take 8 (hexdigest (md5 (clean_title title)))
         \<and> length (take 51 (clean_title title) @ [95] @ take 8 (hexdigest (md5 (clean_title title)))) = 60
         \<and> length (take 8 (hexdigest (md5 (clean_title title)))) = 8
         \<and> list_all hex_char (take 8 (hexdigest (md5 (clean_title title))))"
proof -
  let ?c = "clean_title title"
  let ?h = "take 8 (hexdigest (md5 ?c))"
  let ?s = "take 51 ?c @ [95] @ ?h"
  have ne: "title \<noteq> []"
    using long by (auto simp: clean_title_def sub_unsafe_def strip_char_def)
  have hex: "list_all hex_char ?h"
    using hex_hexdigest [of "md5 ?c"] by (auto simp: list_all_iff dest: in_set_takeD)
  have len: "length ?s = 60"
    using long by (simp add: length_hexdigest)
  have "47 \<notin> set (take 51 ?c)"
    using safe_clean_title [of title] safe_char_not_sep
    by (auto simp: list_all_iff dest: in_set_takeD)
  moreover have "47 \<notin> set ?h"
    using hex hex_char_not_sep by (auto simp: list_all_iff)
  ultimately have "47 \<notin> set ?s" by simp
  then have base: "basename (path_join base_dir ?s) = ?s"
    by (rule basename_path_join)
  have "short_name md5 ?c 60 = Inr ?s"
    using long by (simp add: short_name_def encode_clean_title py_take_def str_def)
  then have "short_safe_folder md5 now title base_dir 60 = Inr (path_join base_dir ?s)"
    using ne by (simp add: short_safe_folder_def Let_def)
  with base len hex show ?thesis by (simp add: length_hexdigest)
qed

theorem short_safe_folder_long_title_witness:
  "60 < length (clean_title (str ''Ten things you did not know about the history of the printing press''))
   \<and> short_safe_folder example_md5 example_now
        (str ''Ten things you did not know about the history of the printing press'') OUTPUT_BASE 60
      = Inr (str ''outputs_final/Ten_things_you_did_not_know_about_the_history_of_th_01234567'')"
proof -
  let ?t = "str ''Ten things you did not know about the history of the printing press''"
  have c: "clean_title ?t = str ''Ten_things_you_did_not_know_about_the_history_of_the_printing_press''"
    by code_simp
  have h: "60 < length (clean_title ?t)"
    unfolding c by (simp add: str_def)
  have d: "take 8 (hexdigest (example_md5 (clean_title ?t))) = str ''01234567''"
    unfolding example_md5_def by code_simp
  have j: "path_join OUTPUT_BASE (take 51 (clean_title ?t) @ [95] @ str ''01234567'')
         = str ''outputs_final/Ten_things_you_did_not_know_about_the_history_of_th_01234567''"
    unfolding c by code_simp
  from short_safe_folder_long_title [OF h, of example_md5 example_now OUTPUT_BASE]
  have "short_safe_folder example_md5 example_now ?t OUTPUT_BASE 60 =
           Inr (path_join OUTPUT_BASE
                  (take 51 (clean_title ?t) @ [95] @ take 8 (hexdigest (example_md5 (clean_title ?t)))))"
    by blast
  with h d j show ?thesis by simp
qed

text \<open>
  Claim C6. For the title \<open>My Article!!\<close> the folder is \<open>outputs_final/My_Article\<close>: its
  basename \<open>My_Article\<close> has only characters of \<open>[A-Za-z0-9_]\<close>, no doubled underscore,
  and neither starts nor ends with an underscore.
\<close>

theorem short_safe_folder_my_article:
  "short_safe_folder md5 now (str ''My Article!!'') OUTPUT_BASE 60 = Inr (str ''outputs_final/My_Article'')
   \<and> basename (str ''outputs_final/My_Article'') = str ''My_Article''
   \<and> list_all safe_char (str ''My_Article'')
   \<and> \<not> contains (str ''My_Article'') (str ''__'')
   \<and> \<not> startswith (str ''My_Article'') (str ''_'')
   \<and> \<not> endswith (str ''My_Article'') (str ''_'')"
proof -
  have c: "clean_title (str ''My Article!!'') = str ''My_Article''"
    by code_simp
  have s: "short_name md5 (str ''My_Article'') 60 = Inr (str ''My_Article'')"
    by (simp add: short_name_def str_def)
  have t: "str ''My Article!!'' \<noteq> []" "str ''My_Article'' \<noteq> []"
    by (simp_all add: str_def)
  have j: "path_join OUTPUT_BASE (str ''My_Article'') = str ''outputs_final/My_Article''"
    by code_simp
  have 1: "short_safe_folder md5 now (str ''My Article!!'') OUTPUT_BASE 60 = Inr (str ''outputs_final/My_Article'')"
    by (simp add: short_safe_folder_def Let_def c s t j)
  have 2: "basename (str ''outputs_final/My_Article'') = str ''My_Article''"
    by code_simp
  have 3: "list_all safe_char (str ''My_Article'')"
    by code_simp
  have 4: "\<not> contains (str ''My_Article'') (str ''__'')"
    by code_simp
  have 5: "\<not> startswith (str ''My_Article'') (str ''_'')"
    by code_simp
  have 6: "\<not> endswith (str ''My_Article'') (str ''_'')"
    by code_simp
  from 1 2 3 4 5 6 show ?thesis by blast
qed

lemma clean_title_unsafe:
  assumes "list_all (\<lambda>c. \<not> safe_char c) title"
  shows "clean_title title = []"
proof -
  have "set (sub_unsafe title) \<subseteq> {95}"
    using assms by (auto simp: sub_unsafe_def list_all_iff)
  then have "set (sub_underscores (sub_unsafe title)) \<subseteq> {95}"
    using set_sub_underscores by blast
  then have d: "dropWhile (\<lambda>x. x = 95) (sub_underscores (sub_unsafe title)) = []"
    by auto
  show ?thesis
    unfolding clean_title_def strip_char_def d by simp
qed

text \<open>
  Claim C10, as amended. A non-empty title without any character of \<open>[A-Za-z0-9_]\<close> has
  the empty cleaned form, and its folder is the time-stamp fallback, whose basename begins
  with \<open>article_\<close>. The empty title does not reach the fallback: line 64 replaces it by
  \<open>article\<close>, and its folder is named \<open>article\<close>, with no time stamp.
\<close>

theorem short_safe_folder_fallback:
  "(title \<noteq> [] \<and> list_all (\<lambda>c. \<not> safe_char c) title \<and> 0 \<le> max_len \<longrightarrow>
      short_safe_folder md5 now title base_dir max_len
        = Inr (path_join base_dir (str ''article_'' @ strftime_stamp now))
      \<and> basename (path_join base_dir (str ''article_'' @ strftime_stamp now))
        = str ''article_'' @ strftime_stamp now
      \<and> startswith (str ''article_'' @ strftime_stamp now) (str ''article_''))
   \<and> short_safe_folder md5 now [] base_dir 60 = Inr (path_join base_dir (str ''article''))
   \<and> basename (path_join base_dir (str ''article'')) = str ''article''"
proof -
  have a: "clean_title (str ''article'') = str ''article''"
    by code_simp
  have e: "short_safe_folder md5 now [] base_dir 60 = Inr (path_join base_dir (str ''article''))"
    by (simp add: short_safe_folder_def Let_def a) (simp add: short_name_def str_def)
  have "47 \<notin> set (str ''article'')"
    by (simp add: str_def)
  then have b: "basename (path_join base_dir (str ''article'')) = str ''article''"
    by (rule basename_path_join)
  have "47 \<notin> set (str ''article_'' @ strftime_stamp now)"
    using stamp_no_sep by (simp add: str_def)
  then have f: "basename (path_join base_dir (str ''article_'' @ strftime_stamp now))
        = str ''article_'' @ strftime_stamp now"
    by (rule basename_path_join)
  have s: "startswith (str ''article_'' @ strftime_stamp now) (str ''article_'')"
    by (simp add: startswith_def)
  have m: "short_safe_folder md5 now title base_dir max_len
        = Inr (path_join base_dir (str ''article_'' @ strftime_stamp now))"
    if "title \<noteq> []" "list_all (\<lambda>c. \<not> safe_char c) title" "0 \<le> max_len"
    using that by (simp add: short_safe_folder_def Let_def clean_title_unsafe short_name_def)
  from e b f s m show ?thesis by blast
qed

theorem short_safe_folder_fallback_witness:
  "str ''!!!'' \<noteq> [] \<and> list_all (\<lambda>c. \<not> safe_char c) (str ''!!!'') \<and> (0::int) \<le> 60
   \<and> short_safe_folder example_md5 example_now (str ''!!!'') OUTPUT_BASE 60
       = Inr (str ''outputs_final/article_20240309_140507'')"
proof -
  have h: "str ''!!!'' \<noteq> [] \<and> list_all (\<lambda>c. \<not> safe_char c) (str ''!!!'') \<and> (0::int) \<le> 60"
    by code_simp
  have j: "path_join OUTPUT_BASE (str ''article_'' @ strftime_stamp example_now)
             = str ''outputs_final/article_20240309_140507''"
    by code_simp
  from short_safe_folder_fallback [of "str ''!!!''" 60 example_md5 example_now OUTPUT_BASE] h
  have "short_safe_folder example_md5 example_now (str ''!!!'') OUTPUT_BASE 60
        = Inr (path_join OUTPUT_BASE (str ''article_'' @ strftime_stamp example_now))"
    by blast
  with h j show ?thesis by simp
qed

text \<open>
  The empty title against claim C10 as stated (the fallback as the name of the empty
  title): its folder is \<open>outputs_final/article\<close>, which does not begin with \<open>article_\<close>.
\<close>

theorem short_safe_folder_empty_title_counterexample:
  "short_safe_folder example_md5 example_now [] OUTPUT_BASE 60 = Inr (str ''outputs_final/article'')
   \<and> \<not> startswith (basename (str ''outputs_final/article'')) (str ''article_'')"
  by code_simp

section \<open>Properties of the paraphrase\<close>

lemma sub_word_no_match: "\<not> occurs_word U k prev s \<Longrightarrow> sub_word U k v prev s = s"
  by (induction s arbitrary: prev) auto

lemma re_sub_word_no_match: "\<not> contains_word U k s \<Longrightarrow> re_sub_word U k v s = s"
  by (simp add: contains_word_def re_sub_word_def sub_word_no_match)

text \<open>
  Claim C8. A text without Devanagari characters, paraphrased with a language code that
  does not start with \<open>hi\<close> (such as \<open>en\<close>), is returned unchanged when none of the five
  keys \<open>said\<close>, \<open>shows\<close>, \<open>important\<close>, \<open>use\<close>, \<open>many\<close> occurs in it as a whole word, in
  whatever case.
\<close>

theorem paraphrase_text_identity:
  assumes latin: "\<not> startswith lang (str ''hi'')" "\<not> has_devanagari text"
    and free: "list_all (\<lambda>k. \<not> contains_word U k text) (map fst syn_en)"
  shows "paraphrase_text U text lang = text"
proof (cases "text = []")
  case True
  then show ?thesis by (simp add: paraphrase_text_def)
next
  case False
  have "fold (\<lambda>(k, v) out. re_sub_word U k v out) syn_en text = text"
    using free by (simp add: syn_en_def re_sub_word_no_match)
  with False latin show ?thesis
    by (simp add: paraphrase_text_def is_hindi_def)
qed

theorem paraphrase_text_identity_witness:
  "\<not> startswith (str ''en'') (str ''hi'')
   \<and> \<not> has_devanagari (str ''A useful Manyfold day'')
   \<and> list_all (\<lambda>k. \<not> contains_word ascii_tables k (str ''A useful Manyfold day'')) (map fst syn_en)
   \<and> paraphrase_text ascii_tables (str ''A useful Manyfold day'') (str ''en'') = str ''A useful Manyfold day''"
proof -
  have 1: "\<not> startswith (str ''en'') (str ''hi'')"
    by (simp add: startswith_def str_def)
  have 2: "\<not> has_devanagari (str ''A useful Manyfold day'')"
    by (simp add: has_devanagari_def str_def)
  have 3: "list_all (\<lambda>k. \<not> contains_word ascii_tables k (str ''A useful Manyfold day'')) (map fst syn_en)"
    by (simp add: contains_word_def match_word_def ascii_tables_def is_word_def word_opt_def
        ascii_lower_def str_def syn_en_def)
  from paraphrase_text_identity [OF 1 2 3] 1 2 3 show ?thesis by blast
qed

text \<open>
  Claim C9. In the Hindi branch the three replacements run one after the other over the
  whole string. The dictionary maps the second key (\<open>bataya\<close>) to \<open>suchit kiya\<close>. For the
  input equal to that key the second rule gives this synonym, and the third rule then
  rewrites the \<open>kiya\<close> inside it: the result is two replacements chained, and differs
  from the synonym the dictionary gives for the key.
\<close>

theorem paraphrase_hi_chain:
  "map_of syn_hi hi_bataya = Some hi_suchit_kiya
   \<and> paraphrase_text U hi_bataya (str ''hi'')
     = replace hi_kiya hi_anjam_diya (replace hi_bataya hi_suchit_kiya hi_bataya)
   \<and> replace hi_bataya hi_suchit_kiya hi_bataya = hi_suchit_kiya
   \<and> paraphrase_text U hi_bataya (str ''hi'') \<noteq> hi_suchit_kiya"
proof -
  have 0: "map_of syn_hi hi_bataya = Some hi_suchit_kiya"
    by (simp add: syn_hi_def hi_kaha_def hi_bataya_def)
  have h: "is_hindi (str ''hi'') hi_bataya" "hi_bataya \<noteq> []"
    by (simp_all add: is_hindi_def startswith_def hi_bataya_def)
  have 1: "replace hi_kaha hi_bataya hi_bataya = hi_bataya"
    by (simp add: hi_kaha_def hi_bataya_def startswith_def)
  have 2: "replace hi_bataya hi_suchit_kiya hi_bataya = hi_suchit_kiya"
    by (simp add: hi_bataya_def startswith_def)
  have 3: "replace hi_kiya hi_anjam_diya hi_suchit_kiya \<noteq> hi_suchit_kiya"
    by (simp add: hi_kiya_def hi_suchit_kiya_def hi_anjam_diya_def startswith_def)
  have "paraphrase_text U hi_bataya (str ''hi'')
     = replace hi_kiya hi_anjam_diya (replace hi_bataya hi_suchit_kiya (replace hi_kaha hi_bataya hi_bataya))"
    using h by (simp add: paraphrase_text_def syn_hi_def)
  with 0 1 2 3 show ?thesis by simp
qed

section \<open>Properties of the summary\<close>

lemma insort_key_lex:
  fixes f :: "nat \<Rightarrow> int"
  assumes "sorted_wrt (\<lambda>i j. f i < f j \<or> (f i = f j \<and> i < j)) ys" and "\<forall>y\<in>set ys. x < y"
  shows "sorted_wrt (\<lambda>i j. f i < f j \<or> (f i = f j \<and> i < j)) (insort_key f x ys)"
  using assms
proof (induction ys)
  case Nil
  then show ?case by simp
next
  case (Cons y ys)
  show ?case
  proof (cases "f x \<le> f y")
    case True
    have "f x < f z \<or> (f x = f z \<and> x < z)" if "z \<in> set (y # ys)" for z
    proof -
      have "x < z" using Cons.prems(2) that by auto
      moreover have "f y \<le> f z" using Cons.prems(1) that by auto
      ultimately show ?thesis using True by auto
    qed
    with True Cons.prems(1) show ?thesis by simp
  next
    case False
    have "sorted_wrt (\<lambda>i j. f i < f j \<or> (f i = f j \<and> i < j)) (insort_key f x ys)"
      using Cons by simp
    moreover have "f y < f z \<or> (f y = f z \<and> y < z)" if "z \<in> set (insort_key f x ys)" for z
      using that False Cons.prems(1) by (auto simp: set_insort_key)
    ultimately show ?thesis using False by simp
  qed
qed

lemma sort_key_lex:
  fixes f :: "nat \<Rightarrow> int"
  assumes "sorted_wrt (<) xs"
  shows "sorted_wrt (\<lambda>i j. f i < f j \<or> (f i = f j \<and> i < j)) (sort_key f xs)"
  using assms
proof (induction xs)
  case Nil
  then show ?case by simp
next
  case (Cons x xs)
  then show ?case by (simp add: insort_key_lex)
qed

lemma py_take_nonneg: "0 \<le> n \<Longrightarrow> py_take n xs = take (nat n) xs"
  by (simp add: py_take_def)

lemma top_idx_props:
  assumes m: "0 \<le> m" "m < int (length sents)"
  shows "int (length (top_idx U text sents m)) = m"
    and "distinct (top_idx U text sents m)"
    and "set (top_idx U text sents m) \<subseteq> {..<length sents}"
    and "\<And>i j. i \<in> set (top_idx U text sents m) \<Longrightarrow> j < length sents \<Longrightarrow> j \<notin> set (top_idx U text sents m)
          \<Longrightarrow> score U text (sents ! j) < score U text (sents ! i)
              \<or> (score U text (sents ! j) = score U text (sents ! i) \<and> i < j)"
proof -
  let ?f = "\<lambda>i. - int (score U text (sents ! i))"
  let ?xs = "sort_key ?f [0..<length sents]"
  have t: "top_idx U text sents m = take (nat m) ?xs"
    using m by (simp add: top_idx_def py_take_nonneg)
  show "int (length (top_idx U text sents m)) = m"
    using m by (simp add: t)
  show "distinct (top_idx U text sents m)"
    by (simp add: t)
  show "set (top_idx U text sents m) \<subseteq> {..<length sents}"
    unfolding t using set_take_subset [of "nat m" ?xs] by auto
  fix i j
  assume i: "i \<in> set (top_idx U text sents m)" and j: "j < length sents"
    and nj: "j \<notin> set (top_idx U text sents m)"
  have "j \<in> set ?xs" using j by simp
  then have "j \<in> set (take (nat m) ?xs @ drop (nat m) ?xs)" by simp
  then have jd: "j \<in> set (drop (nat m) ?xs)" using nj unfolding t set_append by blast
  have "sorted_wrt (<) [0..<length sents]" by (simp add: sorted_wrt_upt)
  then have "sorted_wrt (\<lambda>i j. ?f i < ?f j \<or> (?f i = ?f j \<and> i < j)) (take (nat m) ?xs @ drop (nat m) ?xs)"
    using sort_key_lex [of "[0..<length sents]" ?f] by simp
  then have "?f i < ?f j \<or> (?f i = ?f j \<and> i < j)"
    unfolding sorted_wrt_append using i jd unfolding t by blast
  then show "score U text (sents ! j) < score U text (sents ! i)
              \<or> (score U text (sents ! j) = score U text (sents ! i) \<and> i < j)"
    by auto
qed

text \<open>
  Claim C1. When the text has more sentences than \<open>max_sentences\<close> (a count, so not
  negative), the summary is the join, with single spaces, of exactly \<open>max_sentences\<close>
  sentences of the sentence list, taken at strictly increasing indices (their original
  order). The choice is the one by score: a chosen sentence has a higher score than every
  sentence left out, or the same score and a lower index; so of two sentences with equal
  scores the one with the lower index is chosen first.
\<close>

theorem extractive_summary_top:
  assumes m: "0 \<le> max_sentences" "max_sentences < int (length (split_sentences U text lang))"
  shows "let sents = split_sentences U text lang;
             idx = top_sorted U text sents max_sentences
         in extractive_summary U text max_sentences lang = join (str '' '') (map (\<lambda>i. sents ! i) idx)
            \<and> int (length idx) = max_sentences
            \<and> sorted_wrt (<) idx
            \<and> list_all (\<lambda>i. i < length sents) idx
            \<and> (\<forall>i j. i \<in> set idx \<and> j < length sents \<and> j \<notin> set idx \<longrightarrow>
                  score U text (sents ! j) < score U text (sents ! i)
                  \<or> (score U text (sents ! j) = score U text (sents ! i) \<and> i < j))
            \<and> (\<forall>i j. j \<in> set idx \<and> i < j \<and> score U text (sents ! i) = score U text (sents ! j)
                  \<longrightarrow> i \<in> set idx)"
proof -
  define sents where "sents = split_sentences U text lang"
  define idx where "idx = top_sorted U text sents max_sentences"
  let ?t = "top_idx U text sents max_sentences"
  have m': "0 \<le> max_sentences" "max_sentences < int (length sents)"
    using m by (simp_all add: sents_def)
  note p = top_idx_props [OF m']
  have idx: "idx = sort ?t"
    by (simp add: idx_def top_sorted_def)
  have s: "set idx = set ?t"
    by (simp add: idx)
  have ne: "sents \<noteq> []" using m' by auto
  have 1: "extractive_summary U text max_sentences lang = join (str '' '') (map (\<lambda>i. sents ! i) idx)"
    using m' ne by (simp add: extractive_summary_def Let_def sents_def idx_def)
  have 2: "int (length idx) = max_sentences"
    using p(1) by (simp add: idx)
  have "distinct idx" using p(2) by (simp add: idx)
  moreover have "sorted idx" by (simp add: idx)
  ultimately have 3: "sorted_wrt (<) idx"
    by (simp add: strict_sorted_iff)
  have 4: "list_all (\<lambda>i. i < length sents) idx"
    using p(3) s by (auto simp: list_all_iff)
  have 5: "score U text (sents ! j) < score U text (sents ! i)
          \<or> (score U text (sents ! j) = score U text (sents ! i) \<and> i < j)"
    if "i \<in> set idx" "j < length sents" "j \<notin> set idx" for i j
    using p(4) that s by simp
  have 6: "i \<in> set idx"
    if j: "j \<in> set idx" and ij: "i < j" and eq: "score U text (sents ! i) = score U text (sents ! j)" for i j
  proof (rule ccontr)
    assume ni: "i \<notin> set idx"
    have "j < length sents" using 4 j by (auto simp: list_all_iff)
    then have "i < length sents" using ij by simp
    from 5 [OF j this ni] ij eq show False by auto
  qed
  from 1 2 3 4 5 6 have
    "extractive_summary U text max_sentences lang = join (str '' '') (map (\<lambda>i. sents ! i) idx)
            \<and> int (length idx) = max_sentences
            \<and> sorted_wrt (<) idx
            \<and> list_all (\<lambda>i. i < length sents) idx
            \<and> (\<forall>i j. i \<in> set idx \<and> j < length sents \<and> j \<notin> set idx \<longrightarrow>
                  score U text (sents ! j) < score U text (sents ! i)
                  \<or> (score U text (sents ! j) = score U text (sents ! i) \<and> i < j))
            \<and> (\<forall>i j. j \<in> set idx \<and> i < j \<and> score U text (sents ! i) = score U text (sents ! j)
                  \<longrightarrow> i \<in> set idx)"
    by blast
  then show ?thesis
    unfolding Let_def sents_def idx_def sents_def .
qed

text \<open>
  Claim C2, as amended. When the text has at most \<open>max_sentences\<close> sentences, the summary
  is all of them, in their order, joined by single spaces: the separators of the text
  itself are not kept.
\<close>

theorem extractive_summary_short:
  assumes "int (length (split_sentences U text lang)) \<le> max_sentences"
  shows "extractive_summary U text max_sentences lang = join (str '' '') (split_sentences U text lang)"
  using assms by (simp add: extractive_summary_def Let_def)

lemmas ascii_eval = strip_def ascii_tables_def ascii_lower_def is_hindi_def has_devanagari_def
  startswith_def str_def en_pattern_def Let_def is_word_def findall_words_def lower_def
  freq_def score_def

lemma example_newline_split:
  "split_sentences ascii_tables [65, 46, 10, 66, 46] (str ''en'') = [[65, 46], [66, 46]]"
  by (simp add: split_sentences_def ascii_eval)

theorem extractive_summary_short_witness:
  "int (length (split_sentences ascii_tables [65, 46, 10, 66, 46] (str ''en''))) \<le> 5
   \<and> extractive_summary ascii_tables [65, 46, 10, 66, 46] 5 (str ''en'') = [65, 46, 32, 66, 46]"
proof -
  have h: "int (length (split_sentences ascii_tables [65, 46, 10, 66, 46] (str ''en''))) \<le> 5"
    by (simp add: example_newline_split)
  from extractive_summary_short [OF h] h show ?thesis
    unfolding example_newline_split by (simp add: str_def)
qed

text \<open>
  The text \<open>A.\<close>, newline, \<open>B.\<close> against claim C2 as stated: it has two sentences, at most
  the maximum 5, and its summary \<open>A. B.\<close> joins them with a space where the text has a
  newline.
\<close>

theorem extractive_summary_joining_counterexample:
  "int (length (split_sentences ascii_tables [65, 46, 10, 66, 46] (str ''en''))) \<le> 5
   \<and> extractive_summary ascii_tables [65, 46, 10, 66, 46] 5 (str ''en'') = [65, 46, 32, 66, 46]
   \<and> extractive_summary ascii_tables [65, 46, 10, 66, 46] 5 (str ''en'') \<noteq> [65, 46, 10, 66, 46]"
  unfolding extractive_summary_def example_newline_split by (simp add: str_def)

lemma example_five_split:
  "split_sentences ascii_tables (str ''a b. a c. b b b. d. a b.'') (str ''en'')
     = [str ''a b.'', str ''a c.'', str ''b b b.'', str ''d.'', str ''a b.'']"
  by (simp add: split_sentences_def ascii_eval)

lemma example_five_scores:
  "map (score ascii_tables (str ''a b. a c. b b b. d. a b.''))
     [str ''a b.'', str ''a c.'', str ''b b b.'', str ''d.'', str ''a b.''] = [8, 4, 15, 1, 8]"
  by (simp add: ascii_eval)

lemma example_five_top:
  "top_sorted ascii_tables (str ''a b. a c. b b b. d. a b.'')
     [str ''a b.'', str ''a c.'', str ''b b b.'', str ''d.'', str ''a b.''] 2 = [0, 2]"
proof -
  have u: "[0..<5] = [0, 1, 2, 3, 4]" by (simp add: upt_rec)
  from example_five_scores show ?thesis
    by (simp add: top_sorted_def top_idx_def py_take_def u)
qed

theorem extractive_summary_top_witness:
  "(0::int) \<le> 2
   \<and> 2 < int (length (split_sentences ascii_tables (str ''a b. a c. b b b. d. a b.'') (str ''en'')))
   \<and> extractive_summary ascii_tables (str ''a b. a c. b b b. d. a b.'') 2 (str ''en'') = str ''a b. b b b.''"
proof -
  have h: "2 < int (length (split_sentences ascii_tables (str ''a b. a c. b b b. d. a b.'') (str ''en'')))"
    by (simp add: example_five_split)
  have z: "(0::int) \<le> 2" by simp
  from extractive_summary_top [OF z h]
  have "extractive_summary ascii_tables (str ''a b. a c. b b b. d. a b.'') 2 (str ''en'')
        = join (str '' '')
            (map (\<lambda>i. [str ''a b.'', str ''a c.'', str ''b b b.'', str ''d.'', str ''a b.''] ! i) [0, 2])"
    unfolding Let_def example_five_split example_five_top by blast
  with h show ?thesis by (simp add: str_def)
qed

section \<open>Properties of the image harvester\<close>

lemma harvest_length:
  "length saved = c \<Longrightarrow>
   int (length (fst (harvest E folder no_ssl maxi imgs saved c d))) \<le> max (int c) maxi"
proof (induction imgs arbitrary: saved c d)
  case Nil
  then show ?case by simp
next
  case (Cons img imgs)
  show ?case
  proof (cases "maxi \<le> int c")
    case True
    with Cons.prems show ?thesis by simp
  next
    case False
    have same: "int (length (fst (harvest E folder no_ssl maxi imgs saved c d'))) \<le> max (int c) maxi" for d'
      using Cons.IH [OF Cons.prems] .
    have more: "int (length (fst (harvest E folder no_ssl maxi imgs (saved @ [p]) (c + 1) d'))) \<le> max (int c) maxi" for p d'
    proof -
      have "length (saved @ [p]) = c + 1" using Cons.prems by simp
      from Cons.IH [OF this] have "int (length (fst (harvest E folder no_ssl maxi imgs (saved @ [p]) (c + 1) d'))) \<le> max (int (c + 1)) maxi" .
      with False show ?thesis by simp
    qed
    from False same more show ?thesis
      by (simp split: option.split attempt.split)
  qed
qed

lemma download_images_cap:
  "0 \<le> maxi \<Longrightarrow> int (length (fst (download_images_from_html E html folder no_ssl maxi d))) \<le> maxi"
  using harvest_length [of "[]" 0 E folder no_ssl maxi "find_all_img E html" d]
  by (simp add: download_images_from_html_def)

text \<open>
  Claim C5, as amended. The list of saved paths is never longer than \<open>max_images\<close> (a
  count, so not negative). When the turn of an image with a usable address comes (the
  maximum not reached), every failure leaves the saved list and the counter as they
  are and the loop goes on with the remaining images: a failed request, a file that
  cannot be opened, a broken transfer (whose partial file stays on disk), and a file
  that fails the verification. The file of an image that fails the verification is
  removed from disk when the removal succeeds; when the removal raises, the exception is
  ignored and the file stays. (As the counter has not moved, the next image that is kept
  gets the same number in its file name.)
\<close>

theorem download_images_isolates_failures:
  "(0 \<le> maxi \<longrightarrow> int (length (fst (download_images_from_html E html folder no_ssl maxi d0))) \<le> maxi)
   \<and> (int c < maxi \<and> pick_src img = Some s \<and> s \<noteq> []
        \<and> startswith (lower (tables E) (strip (tables E) s)) (str ''http'') \<longrightarrow>
       (let src = strip (tables E) s;
            outpath = image_path E folder c src;
            rest = harvest E folder no_ssl maxi imgs saved c
        in (image_get E src (\<not> no_ssl) = GetFailed \<longrightarrow>
              harvest E folder no_ssl maxi (img # imgs) saved c d = rest d)
         \<and> (\<not> can_open E outpath \<longrightarrow>
              harvest E folder no_ssl maxi (img # imgs) saved c d = rest d)
         \<and> (\<forall>b. image_get E src (\<not> no_ssl) = BrokenBody b \<and> can_open E outpath \<longrightarrow>
              harvest E folder no_ssl maxi (img # imgs) saved c d = rest (d(outpath \<mapsto> b)))
         \<and> (\<forall>b. image_get E src (\<not> no_ssl) = Body b \<and> can_open E outpath \<and> \<not> image_verifies E b
                  \<and> can_remove E outpath \<longrightarrow>
              harvest E folder no_ssl maxi (img # imgs) saved c d = rest (d(outpath := None)))
         \<and> (\<forall>b. image_get E src (\<not> no_ssl) = Body b \<and> can_open E outpath \<and> \<not> image_verifies E b
                  \<and> \<not> can_remove E outpath \<longrightarrow>
              harvest E folder no_ssl maxi (img # imgs) saved c d = rest (d(outpath \<mapsto> b)))))"
proof -
  have cap: "0 \<le> maxi \<longrightarrow> int (length (fst (download_images_from_html E html folder no_ssl maxi d0))) \<le> maxi"
    using download_images_cap by blast
  have step: "harvest E folder no_ssl maxi (img # imgs) saved c d =
      (case try_image E folder no_ssl c (strip (tables E) s) d of
         Raised d' \<Rightarrow> harvest E folder no_ssl maxi imgs saved c d'
       | Rejected d' \<Rightarrow> harvest E folder no_ssl maxi imgs saved c d'
       | Stored p d' \<Rightarrow> harvest E folder no_ssl maxi imgs (saved @ [p]) (c + 1) d')"
    if "int c < maxi" "pick_src img = Some s" "s \<noteq> []"
       "startswith (lower (tables E) (strip (tables E) s)) (str ''http'')"
    using that by simp
  show ?thesis
  proof (rule conjI [OF cap], rule impI)
    assume a: "int c < maxi \<and> pick_src img = Some s \<and> s \<noteq> []
        \<and> startswith (lower (tables E) (strip (tables E) s)) (str ''http'')"
    then have st: "harvest E folder no_ssl maxi (img # imgs) saved c d =
      (case try_image E folder no_ssl c (strip (tables E) s) d of
         Raised d' \<Rightarrow> harvest E folder no_ssl maxi imgs saved c d'
       | Rejected d' \<Rightarrow> harvest E folder no_ssl maxi imgs saved c d'
       | Stored p d' \<Rightarrow> harvest E folder no_ssl maxi imgs (saved @ [p]) (c + 1) d')"
      using step by blast
    show "let src = strip (tables E) s;
            outpath = image_path E folder c src;
            rest = harvest E folder no_ssl maxi imgs saved c
        in (image_get E src (\<not> no_ssl) = GetFailed \<longrightarrow>
              harvest E folder no_ssl maxi (img # imgs) saved c d = rest d)
         \<and> (\<not> can_open E outpath \<longrightarrow>
              harvest E folder no_ssl maxi (img # imgs) saved c d = rest d)
         \<and> (\<forall>b. image_get E src (\<not> no_ssl) = BrokenBody b \<and> can_open E outpath \<longrightarrow>
              harvest E folder no_ssl maxi (img # imgs) saved c d = rest (d(outpath \<mapsto> b)))
         \<and> (\<forall>b. image_get E src (\<not> no_ssl) = Body b \<and> can_open E outpath \<and> \<not> image_verifies E b
                  \<and> can_remove E outpath \<longrightarrow>
              harvest E folder no_ssl maxi (img # imgs) saved c d = rest (d(outpath := None)))
         \<and> (\<forall>b. image_get E src (\<not> no_ssl) = Body b \<and> can_open E outpath \<and> \<not> image_verifies E b
                  \<and> \<not> can_remove E outpath \<longrightarrow>
              harvest E folder no_ssl maxi (img # imgs) saved c d = rest (d(outpath \<mapsto> b)))"
      unfolding Let_def st
      by (auto simp: try_image_def Let_def split: download.split)
  qed
qed

lemma str_of_nat_one: "str_of_nat (Suc 0) = [49]"
  by (subst str_of_nat.simps) simp

lemmas harvest_eval = example_env_def bad_img_def good_img_def pick_src_def py_or_def
  try_image_def image_path_def image_ext_def path_join_def str_of_nat_one
  download_images_from_html_def ascii_eval

lemma example_bad_path:
  "image_path example_env (str ''outputs_final/News'') 0 (strip (tables example_env) (str ''http://a/bad.gif''))
     = str ''outputs_final/News/img_1.gif''"
  by (simp add: harvest_eval)

lemma example_good_only:
  "harvest example_env (str ''outputs_final/News'') True 50 [good_img] [] 0 d
     = ([str ''outputs_final/News/img_1.png''], d(str ''outputs_final/News/img_1.png'' \<mapsto> [137, 80, 78, 71]))"
  by (simp add: harvest_eval)

theorem download_images_isolates_failures_witness:
  "(0::int) \<le> 50 \<and> int 0 < 50
   \<and> pick_src bad_img = Some (str ''http://a/bad.gif'') \<and> str ''http://a/bad.gif'' \<noteq> []
   \<and> startswith (lower (tables example_env) (strip (tables example_env) (str ''http://a/bad.gif'')))
        (str ''http'')
   \<and> image_get example_env (strip (tables example_env) (str ''http://a/bad.gif'')) (\<not> True)
        = Body [60, 104, 62]
   \<and> can_open example_env (str ''outputs_final/News/img_1.gif'')
   \<and> \<not> image_verifies example_env [60, 104, 62]
   \<and> can_remove example_env (str ''outputs_final/News/img_1.gif'')
   \<and> fst (harvest example_env (str ''outputs_final/News'') True 50 [bad_img, good_img] [] 0 Map.empty)
        = [str ''outputs_final/News/img_1.png'']
   \<and> snd (harvest example_env (str ''outputs_final/News'') True 50 [bad_img, good_img] [] 0 Map.empty)
        (str ''outputs_final/News/img_1.gif'') = None"
proof -
  let ?E = example_env and ?F = "str ''outputs_final/News''" and ?s = "str ''http://a/bad.gif''"
  have h: "int 0 < 50 \<and> pick_src bad_img = Some ?s \<and> ?s \<noteq> []
     \<and> startswith (lower (tables ?E) (strip (tables ?E) ?s)) (str ''http'')"
    by (simp add: harvest_eval)
  have g: "image_get ?E (strip (tables ?E) ?s) (\<not> True) = Body [60, 104, 62]
     \<and> can_open ?E (str ''outputs_final/News/img_1.gif'')
     \<and> \<not> image_verifies ?E [60, 104, 62]
     \<and> can_remove ?E (str ''outputs_final/News/img_1.gif'')"
    by (simp add: harvest_eval)
  from download_images_isolates_failures
    [of 50 ?E "[]" ?F True Map.empty 0 bad_img ?s "[good_img]" "[]" Map.empty] h g
  have "harvest ?E ?F True 50 [bad_img, good_img] [] 0 Map.empty
      = harvest ?E ?F True 50 [good_img] [] 0 (Map.empty(str ''outputs_final/News/img_1.gif'' := None))"
    unfolding Let_def example_bad_path by blast
  then have "harvest ?E ?F True 50 [bad_img, good_img] [] 0 Map.empty
      = ([str ''outputs_final/News/img_1.png''],
         (Map.empty(str ''outputs_final/News/img_1.gif'' := None))
           (str ''outputs_final/News/img_1.png'' \<mapsto> [137, 80, 78, 71]))"
    unfolding example_good_only .
  then have r: "fst (harvest ?E ?F True 50 [bad_img, good_img] [] 0 Map.empty)
        = [str ''outputs_final/News/img_1.png'']
     \<and> snd (harvest ?E ?F True 50 [bad_img, good_img] [] 0 Map.empty)
        (str ''outputs_final/News/img_1.gif'') = None"
    by (simp add: str_def)
  from h g r show ?thesis by simp
qed

text \<open>
  A removal that raises, against claim C5 as stated: the first image of the page fails
  the verification and is not in the returned list, and its file is still on disk when
  the harvester returns.
\<close>

theorem download_images_removal_counterexample:
  "image_get (example_env\<lparr>can_remove := \<lambda>path. False\<rparr>) (str ''http://a/bad.gif'') False
      = Body [60, 104, 62]
   \<and> \<not> image_verifies (example_env\<lparr>can_remove := \<lambda>path. False\<rparr>) [60, 104, 62]
   \<and> fst (download_images_from_html (example_env\<lparr>can_remove := \<lambda>path. False\<rparr>) []
            (str ''outputs_final/News'') True 50 Map.empty)
      = [str ''outputs_final/News/img_1.png'']
   \<and> snd (download_images_from_html (example_env\<lparr>can_remove := \<lambda>path. False\<rparr>) []
            (str ''outputs_final/News'') True 50 Map.empty)
        (str ''outputs_final/News/img_1.gif'') = Some [60, 104, 62]"
  by (simp add: harvest_eval)

section \<open>Properties of the pipeline\<close>

lemma lower_Nil: "lower U [] = []"
  by (simp add: lower_def)

lemma contains_Nil: "contains [] p \<Longrightarrow> p = []"
  by simp

text \<open>
  Claim C3. When the HTML that the fetch tiers deliver has both \<open>access denied\<close> and
  \<open>reference\<close> in its lower-cased form, the pipeline returns no result record and the
  status \<open>access_denied\<close>, and leaves the disk as it was.
\<close>

theorem pipeline_access_denied:
  assumes url: "strip (tables E) url \<noteq> []"
    and fetched: "fetch_html E cfg (strip (tables E) url) = Inr html"
    and denied: "contains (lower (tables E) html) (str ''access denied'')"
    and reference: "contains (lower (tables E) html) (str ''reference'')"
  shows "process_url_pipeline E cfg url d = (Inr (None, str ''access_denied''), d)"
proof -
  have "html \<noteq> []"
  proof
    assume "html = []"
    with denied have "str ''access denied'' = []"
      by (simp add: lower_Nil)
    then show False by (simp add: str_def)
  qed
  with assms show ?thesis
    by (simp add: process_url_pipeline_def Let_def)
qed

lemma last_path_join: "b \<noteq> [] \<Longrightarrow> last (path_join a b) = last b"
  by (simp add: path_join_def)

lemma doc_paths_distinct:
  "doc_path E folder (str ''.docx'') \<noteq> doc_path E folder (str ''.pdf'')"
  "doc_path E folder (str ''.docx'') \<noteq> doc_path E folder (str ''.txt'')"
  "doc_path E folder (str ''.pdf'') \<noteq> doc_path E folder (str ''.txt'')"
proof -
  have l: "last (doc_path E folder ext) = last ext" if "ext \<noteq> []" for ext
    using that by (simp add: doc_path_def last_path_join)
  have "last (doc_path E folder (str ''.docx'')) = 120"
    by (subst l) (simp_all add: str_def)
  moreover have "last (doc_path E folder (str ''.pdf'')) = 102"
    by (subst l) (simp_all add: str_def)
  moreover have "last (doc_path E folder (str ''.txt'')) = 116"
    by (subst l) (simp_all add: str_def)
  ultimately show
    "doc_path E folder (str ''.docx'') \<noteq> doc_path E folder (str ''.pdf'')"
    "doc_path E folder (str ''.docx'') \<noteq> doc_path E folder (str ''.txt'')"
    "doc_path E folder (str ''.pdf'') \<noteq> doc_path E folder (str ''.txt'')"
    by auto
qed

lemma save_outputs_docx_fails:
  assumes "docx_writer E title url summary (doc_path E folder (str ''.docx'')) = SaveFailed msg part"
  shows "save_outputs E url title folder images summary d
     = ((None, str ''save_error: '' @ msg), leave_partial part (doc_path E folder (str ''.docx'')) d)"
  using assms by (simp add: save_outputs_def save_docx_def run_writer_def Let_def)

lemma save_outputs_pdf_fails:
  assumes "docx_writer E title url summary (doc_path E folder (str ''.docx'')) = Saved b1"
    and "pdf_writer E title url summary (doc_path E folder (str ''.pdf'')) = SaveFailed msg part"
  shows "save_outputs E url title folder images summary d
     = ((None, str ''save_error: '' @ msg),
        leave_partial part (doc_path E folder (str ''.pdf'')) (d(doc_path E folder (str ''.docx'') \<mapsto> b1)))"
  using assms by (simp add: save_outputs_def save_docx_def save_pdf_def run_writer_def Let_def)

lemma save_outputs_txt_fails:
  assumes "docx_writer E title url summary (doc_path E folder (str ''.docx'')) = Saved b1"
    and "pdf_writer E title url summary (doc_path E folder (str ''.pdf'')) = Saved b2"
    and "text_writer E (doc_path E folder (str ''.txt'')) (txt_content title url summary) = SaveFailed msg part"
  shows "save_outputs E url title folder images summary d
     = ((None, str ''save_error: '' @ msg),
        leave_partial part (doc_path E folder (str ''.txt''))
          (d(doc_path E folder (str ''.docx'') \<mapsto> b1, doc_path E folder (str ''.pdf'') \<mapsto> b2)))"
  using assms
  by (simp add: save_outputs_def save_docx_def save_pdf_def save_txt_def run_writer_def Let_def)

lemma leave_partial_other: "p \<noteq> q \<Longrightarrow> leave_partial part p d q = d q"
  by (simp add: leave_partial_def split: option.split)

lemma save_outputs_bundle:
  assumes "save_outputs E url title folder images summary d = ((Some b, st), d')"
  shows "st = str ''ok''
    \<and> (\<exists>b1 b2 b3. docx_writer E (b_title b) (b_url b) (b_summary b) (b_docx b) = Saved b1
          \<and> pdf_writer E (b_title b) (b_url b) (b_summary b) (b_pdf b) = Saved b2
          \<and> text_writer E (b_txt b) (txt_content (b_title b) (b_url b) (b_summary b)) = Saved b3)"
proof -
  let ?r1 = "docx_writer E title url summary (doc_path E folder (str ''.docx''))"
  let ?r2 = "pdf_writer E title url summary (doc_path E folder (str ''.pdf''))"
  let ?r3 = "text_writer E (doc_path E folder (str ''.txt'')) (txt_content title url summary)"
  obtain b1 where r1: "?r1 = Saved b1"
    using assms save_outputs_docx_fails [where images = images and d = d and E = E and title = title
        and url = url and summary = summary and folder = folder]
    by (cases ?r1) auto
  obtain b2 where r2: "?r2 = Saved b2"
    using assms save_outputs_pdf_fails [OF r1, where images = images and d = d]
    by (cases ?r2) auto
  obtain b3 where r3: "?r3 = Saved b3"
    using assms save_outputs_txt_fails [OF r1 r2, where images = images and d = d]
    by (cases ?r3) auto
  from assms r1 r2 r3 show ?thesis
    by (auto simp: save_outputs_def save_docx_def save_pdf_def save_txt_def run_writer_def Let_def)
qed

lemma process_html_bundle:
  assumes "process_html E cfg url html d = (Inr (Some b, st), d')"
  shows "st = str ''ok''
    \<and> (\<exists>b1 b2 b3. docx_writer E (b_title b) (b_url b) (b_summary b) (b_docx b) = Saved b1
          \<and> pdf_writer E (b_title b) (b_url b) (b_summary b) (b_pdf b) = Saved b2
          \<and> text_writer E (b_txt b) (txt_content (b_title b) (b_url b) (b_summary b)) = Saved b3)"
proof (cases "make_folder E (page_title E html url)")
  case (Inl e)
  with assms show ?thesis by (simp add: process_html_def Let_def)
next
  case (Inr folder)
  obtain images d1 where
    i: "download_images_from_html E html folder (ignore_ssl cfg) (max_images cfg) d = (images, d1)"
    by (cases "download_images_from_html E html folder (ignore_ssl cfg) (max_images cfg) d")
  obtain r d2 where
    s: "save_outputs E url (page_title E html url) folder images (page_summary E cfg html) d1 = (r, d2)"
    by (cases "save_outputs E url (page_title E html url) folder images (page_summary E cfg html) d1")
  from assms Inr i s have "r = (Some b, st)" "d2 = d'"
    by (simp_all add: process_html_def Let_def)
  with s show ?thesis
    using save_outputs_bundle by blast
qed

lemma pipeline_bundle:
  assumes "process_url_pipeline E cfg url0 d = (Inr (Some b, st), d')"
  shows "st = str ''ok''
    \<and> (\<exists>b1 b2 b3. docx_writer E (b_title b) (b_url b) (b_summary b) (b_docx b) = Saved b1
          \<and> pdf_writer E (b_title b) (b_url b) (b_summary b) (b_pdf b) = Saved b2
          \<and> text_writer E (b_txt b) (txt_content (b_title b) (b_url b) (b_summary b)) = Saved b3)"
proof (cases "fetch_html E cfg (strip (tables E) url0)")
  case (Inl e)
  with assms show ?thesis
    by (simp add: process_url_pipeline_def Let_def split: if_splits)
next
  case (Inr html)
  with assms have "process_html E cfg (strip (tables E) url0) html d = (Inr (Some b, st), d')"
    by (simp add: process_url_pipeline_def Let_def split: if_splits)
  then show ?thesis by (rule process_html_bundle)
qed

lemma pipeline_reaches_writes:
  assumes "strip (tables E) url0 = url" and "url \<noteq> []"
    and "fetch_html E cfg url = Inr html" and "html \<noteq> []"
    and "\<not> (contains (lower (tables E) html) (str ''access denied'')
            \<and> contains (lower (tables E) html) (str ''reference''))"
    and "make_folder E (page_title E html url) = Inr folder"
    and "download_images_from_html E html folder (ignore_ssl cfg) (max_images cfg) d = (images, d1)"
  shows "process_url_pipeline E cfg url0 d
     = (Inr (fst (save_outputs E url (page_title E html url) folder images (page_summary E cfg html) d1)),
        snd (save_outputs E url (page_title E html url) folder images (page_summary E cfg html) d1))"
  using assms
  by (auto simp: process_url_pipeline_def process_html_def Let_def split: prod.splits)

text \<open>
  Claim C4. In a run that reaches the document writes, the first writer that raises
  ends the run with no result record and the status \<open>save_error: \<close> followed by the
  message of the exception; the documents written before stay on disk. Whenever the
  pipeline returns a result record, the status is \<open>ok\<close> and the three writers have
  succeeded on the paths and contents of the record.
\<close>

theorem pipeline_save_error:
  "(strip (tables E) url0 = url \<and> url \<noteq> [] \<and> fetch_html E cfg url = Inr html \<and> html \<noteq> []
      \<and> \<not> (contains (lower (tables E) html) (str ''access denied'')
            \<and> contains (lower (tables E) html) (str ''reference''))
      \<and> make_folder E (page_title E html url) = Inr folder
      \<and> download_images_from_html E html folder (ignore_ssl cfg) (max_images cfg) d = (images, d1)
    \<longrightarrow>
      (let title = page_title E html url;
           summary = page_summary E cfg html;
           docx = doc_path E folder (str ''.docx'');
           pdf = doc_path E folder (str ''.pdf'');
           txt = doc_path E folder (str ''.txt'');
           r1 = docx_writer E title url summary docx;
           r2 = pdf_writer E title url summary pdf;
           r3 = text_writer E txt (txt_content title url summary)
       in (\<forall>msg part. r1 = SaveFailed msg part \<longrightarrow>
             process_url_pipeline E cfg url0 d
               = (Inr (None, str ''save_error: '' @ msg), leave_partial part docx d1))
        \<and> (\<forall>b1 msg part. r1 = Saved b1 \<and> r2 = SaveFailed msg part \<longrightarrow>
             process_url_pipeline E cfg url0 d
               = (Inr (None, str ''save_error: '' @ msg), leave_partial part pdf (d1(docx \<mapsto> b1)))
             \<and> leave_partial part pdf (d1(docx \<mapsto> b1)) docx = Some b1)
        \<and> (\<forall>b1 b2 msg part. r1 = Saved b1 \<and> r2 = Saved b2 \<and> r3 = SaveFailed msg part \<longrightarrow>
             process_url_pipeline E cfg url0 d
               = (Inr (None, str ''save_error: '' @ msg),
                  leave_partial part txt (d1(docx \<mapsto> b1, pdf \<mapsto> b2)))
             \<and> leave_partial part txt (d1(docx \<mapsto> b1, pdf \<mapsto> b2)) docx = Some b1
             \<and> leave_partial part txt (d1(docx \<mapsto> b1, pdf \<mapsto> b2)) pdf = Some b2)))
   \<and> (\<forall>b st d'. process_url_pipeline E cfg url0 d = (Inr (Some b, st), d') \<longrightarrow>
         st = str ''ok''
         \<and> (\<exists>b1 b2 b3.
               docx_writer E (b_title b) (b_url b) (b_summary b) (b_docx b) = Saved b1
             \<and> pdf_writer E (b_title b) (b_url b) (b_summary b) (b_pdf b) = Saved b2
             \<and> text_writer E (b_txt b) (txt_content (b_title b) (b_url b) (b_summary b)) = Saved b3))"
proof (intro conjI impI allI)
  fix b st d'
  assume "process_url_pipeline E cfg url0 d = (Inr (Some b, st), d')"
  then show "st = str ''ok''" using pipeline_bundle by blast
next
  fix b st d'
  assume "process_url_pipeline E cfg url0 d = (Inr (Some b, st), d')"
  then show "\<exists>b1 b2 b3.
               docx_writer E (b_title b) (b_url b) (b_summary b) (b_docx b) = Saved b1
             \<and> pdf_writer E (b_title b) (b_url b) (b_summary b) (b_pdf b) = Saved b2
             \<and> text_writer E (b_txt b) (txt_content (b_title b) (b_url b) (b_summary b)) = Saved b3"
    using pipeline_bundle by blast
next
  assume reach: "strip (tables E) url0 = url \<and> url \<noteq> [] \<and> fetch_html E cfg url = Inr html \<and> html \<noteq> []
      \<and> \<not> (contains (lower (tables E) html) (str ''access denied'')
            \<and> contains (lower (tables E) html) (str ''reference''))
      \<and> make_folder E (page_title E html url) = Inr folder
      \<and> download_images_from_html E html folder (ignore_ssl cfg) (max_images cfg) d = (images, d1)"
  let ?title = "page_title E html url" and ?summary = "page_summary E cfg html"
  let ?docx = "doc_path E folder (str ''.docx'')" and ?pdf = "doc_path E folder (str ''.pdf'')"
    and ?txt = "doc_path E folder (str ''.txt'')"
  have run: "process_url_pipeline E cfg url0 d
     = (Inr (fst (save_outputs E url ?title folder images ?summary d1)),
        snd (save_outputs E url ?title folder images ?summary d1))"
    using reach pipeline_reaches_writes [of E url0 url cfg html folder d images d1] by blast
  have 1: "process_url_pipeline E cfg url0 d
               = (Inr (None, str ''save_error: '' @ msg), leave_partial part ?docx d1)"
    if "docx_writer E ?title url ?summary ?docx = SaveFailed msg part" for msg part
    unfolding run save_outputs_docx_fails [OF that] by simp
  have 2: "process_url_pipeline E cfg url0 d
               = (Inr (None, str ''save_error: '' @ msg), leave_partial part ?pdf (d1(?docx \<mapsto> b1)))
             \<and> leave_partial part ?pdf (d1(?docx \<mapsto> b1)) ?docx = Some b1"
    if "docx_writer E ?title url ?summary ?docx = Saved b1 \<and> pdf_writer E ?title url ?summary ?pdf = SaveFailed msg part"
    for b1 msg part
  proof -
    from that have r1: "docx_writer E ?title url ?summary ?docx = Saved b1"
      and r2: "pdf_writer E ?title url ?summary ?pdf = SaveFailed msg part" by simp_all
    have "?pdf \<noteq> ?docx" using doc_paths_distinct(1) [of E folder] by simp
    then have "leave_partial part ?pdf (d1(?docx \<mapsto> b1)) ?docx = Some b1"
      by (simp add: leave_partial_other)
    then show ?thesis
      unfolding run save_outputs_pdf_fails [OF r1 r2] by simp
  qed
  have 3: "process_url_pipeline E cfg url0 d
               = (Inr (None, str ''save_error: '' @ msg),
                  leave_partial part ?txt (d1(?docx \<mapsto> b1, ?pdf \<mapsto> b2)))
             \<and> leave_partial part ?txt (d1(?docx \<mapsto> b1, ?pdf \<mapsto> b2)) ?docx = Some b1
             \<and> leave_partial part ?txt (d1(?docx \<mapsto> b1, ?pdf \<mapsto> b2)) ?pdf = Some b2"
    if "docx_writer E ?title url ?summary ?docx = Saved b1 \<and> pdf_writer E ?title url ?summary ?pdf = Saved b2
        \<and> text_writer E ?txt (txt_content ?title url ?summary) = SaveFailed msg part"
    for b1 b2 msg part
  proof -
    from that have r1: "docx_writer E ?title url ?summary ?docx = Saved b1"
      and r2: "pdf_writer E ?title url ?summary ?pdf = Saved b2"
      and r3: "text_writer E ?txt (txt_content ?title url ?summary) = SaveFailed msg part" by simp_all
    have ne: "?txt \<noteq> ?docx" "?txt \<noteq> ?pdf" "?pdf \<noteq> ?docx"
      using doc_paths_distinct [of E folder] by simp_all
    then have "leave_partial part ?txt (d1(?docx \<mapsto> b1, ?pdf \<mapsto> b2)) ?docx = Some b1"
      "leave_partial part ?txt (d1(?docx \<mapsto> b1, ?pdf \<mapsto> b2)) ?pdf = Some b2"
      by (simp_all add: leave_partial_other)
    then show ?thesis
      unfolding run save_outputs_txt_fails [OF r1 r2 r3] by simp
  qed
  from 1 2 3 show "let title = page_title E html url;
           summary = page_summary E cfg html;
           docx = doc_path E folder (str ''.docx'');
           pdf = doc_path E folder (str ''.pdf'');
           txt = doc_path E folder (str ''.txt'');
           r1 = docx_writer E title url summary docx;
           r2 = pdf_writer E title url summary pdf;
           r3 = text_writer E txt (txt_content title url summary)
       in (\<forall>msg part. r1 = SaveFailed msg part \<longrightarrow>
             process_url_pipeline E cfg url0 d
               = (Inr (None, str ''save_error: '' @ msg), leave_partial part docx d1))
        \<and> (\<forall>b1 msg part. r1 = Saved b1 \<and> r2 = SaveFailed msg part \<longrightarrow>
             process_url_pipeline E cfg url0 d
               = (Inr (None, str ''save_error: '' @ msg), leave_partial part pdf (d1(docx \<mapsto> b1)))
             \<and> leave_partial part pdf (d1(docx \<mapsto> b1)) docx = Some b1)
        \<and> (\<forall>b1 b2 msg part. r1 = Saved b1 \<and> r2 = Saved b2 \<and> r3 = SaveFailed msg part \<longrightarrow>
             process_url_pipeline E cfg url0 d
               = (Inr (None, str ''save_error: '' @ msg),
                  leave_partial part txt (d1(docx \<mapsto> b1, pdf \<mapsto> b2)))
             \<and> leave_partial part txt (d1(docx \<mapsto> b1, pdf \<mapsto> b2)) docx = Some b1
             \<and> leave_partial part txt (d1(docx \<mapsto> b1, pdf \<mapsto> b2)) pdf = Some b2)"
    unfolding Let_def by blast
qed

section \<open>The pipeline on the example world\<close>

lemma example_stamp: "strftime_stamp example_now = str ''20240309_140507''"
  by code_simp

lemma example_fetch_denied:
  "fetch_html example_env example_config (str ''http://a/denied'') = Inr (str ''Access Denied - Reference 18'')"
  by (simp add: fetch_html_def example_env_def example_config_def ascii_eval)

theorem pipeline_access_denied_witness:
  "strip (tables example_env) (str '' http://a/denied '') \<noteq> []
   \<and> fetch_html example_env example_config (strip (tables example_env) (str '' http://a/denied ''))
       = Inr (str ''Access Denied - Reference 18'')
   \<and> contains (lower (tables example_env) (str ''Access Denied - Reference 18'')) (str ''access denied'')
   \<and> contains (lower (tables example_env) (str ''Access Denied - Reference 18'')) (str ''reference'')
   \<and> process_url_pipeline example_env example_config (str '' http://a/denied '') Map.empty
       = (Inr (None, str ''access_denied''), Map.empty)"
proof -
  have s: "strip (tables example_env) (str '' http://a/denied '') = str ''http://a/denied''"
    by (simp add: example_env_def ascii_eval)
  have 1: "strip (tables example_env) (str '' http://a/denied '') \<noteq> []"
    unfolding s by (simp add: str_def)
  have 2: "fetch_html example_env example_config (strip (tables example_env) (str '' http://a/denied ''))
       = Inr (str ''Access Denied - Reference 18'')"
    unfolding s by (rule example_fetch_denied)
  have 3: "contains (lower (tables example_env) (str ''Access Denied - Reference 18'')) (str ''access denied'')"
    by (simp add: example_env_def ascii_eval)
  have 4: "contains (lower (tables example_env) (str ''Access Denied - Reference 18'')) (str ''reference'')"
    by (simp add: example_env_def ascii_eval)
  from pipeline_access_denied [OF 1 2 3 4] 1 2 3 4 show ?thesis by blast
qed

lemma example_fetch_news:
  "fetch_html example_env example_config (str ''http://a/news'') = Inr (str ''<p>Hi.</p>'')"
  by (simp add: fetch_html_def example_env_def example_config_def ascii_eval)

lemma example_folder:
  "make_folder example_env (page_title example_env (str ''<p>Hi.</p>'') (str ''http://a/news''))
     = Inr (str ''outputs_final/News'')"
proof -
  have t: "page_title example_env (str ''<p>Hi.</p>'') (str ''http://a/news'') = str ''News''"
    by (simp add: page_title_def example_env_def str_def)
  have c: "clean_title (str ''News'') = str ''News''"
    by (simp add: clean_title_def sub_unsafe_def safe_char_def strip_char_def startswith_def str_def)
  have f: "short_safe_folder example_md5 example_now (str ''News'') OUTPUT_BASE 60
             = Inr (str ''outputs_final/News'')"
    by (simp add: short_safe_folder_def Let_def c short_name_def)
       (simp add: str_def OUTPUT_BASE_def path_join_def startswith_def)
  have m: "md5_of example_env = example_md5" "now_folder example_env = example_now"
    "can_makedirs example_env p" for p
    by (simp_all add: example_env_def)
  show ?thesis
    unfolding t by (simp add: make_folder_def m f)
qed

lemma example_docx_path:
  "doc_path example_env (str ''outputs_final/News'') (str ''.docx'')
     = str ''outputs_final/News/summary_20240309_140507.docx''"
proof -
  have "now_summary example_env = example_now" by (simp add: example_env_def)
  then show ?thesis
    by (simp add: doc_path_def example_stamp) (simp add: str_def path_join_def startswith_def)
qed

theorem pipeline_save_error_witness:
  "strip (tables example_env) (str ''http://a/news'') = str ''http://a/news''
   \<and> str ''http://a/news'' \<noteq> []
   \<and> fetch_html example_env example_config (str ''http://a/news'') = Inr (str ''<p>Hi.</p>'')
   \<and> str ''<p>Hi.</p>'' \<noteq> []
   \<and> \<not> (contains (lower (tables example_env) (str ''<p>Hi.</p>'')) (str ''access denied'')
         \<and> contains (lower (tables example_env) (str ''<p>Hi.</p>'')) (str ''reference''))
   \<and> make_folder example_env (page_title example_env (str ''<p>Hi.</p>'') (str ''http://a/news''))
       = Inr (str ''outputs_final/News'')
   \<and> docx_writer example_env (page_title example_env (str ''<p>Hi.</p>'') (str ''http://a/news''))
        (str ''http://a/news'') (page_summary example_env example_config (str ''<p>Hi.</p>''))
        (doc_path example_env (str ''outputs_final/News'') (str ''.docx'')) = Saved [80, 75]
   \<and> pdf_writer example_env (page_title example_env (str ''<p>Hi.</p>'') (str ''http://a/news''))
        (str ''http://a/news'') (page_summary example_env example_config (str ''<p>Hi.</p>''))
        (doc_path example_env (str ''outputs_final/News'') (str ''.pdf'')) = SaveFailed (str ''latin-1'') None
   \<and> fst (process_url_pipeline example_env example_config (str ''http://a/news'') Map.empty)
       = Inr (None, str ''save_error: latin-1'')
   \<and> snd (process_url_pipeline example_env example_config (str ''http://a/news'') Map.empty)
        (str ''outputs_final/News/summary_20240309_140507.docx'') = Some [80, 75]"
proof -
  let ?E = example_env and ?cfg = example_config
  let ?url = "str ''http://a/news''" and ?html = "str ''<p>Hi.</p>''" and ?F = "str ''outputs_final/News''"
  let ?dl = "download_images_from_html ?E ?html ?F (ignore_ssl ?cfg) (max_images ?cfg) Map.empty"
  have 1: "strip (tables ?E) ?url = ?url"
    by (simp add: example_env_def ascii_eval)
  have 2: "?url \<noteq> []" "?html \<noteq> []"
    by (simp_all add: str_def)
  have 3: "\<not> (contains (lower (tables ?E) ?html) (str ''access denied'')
         \<and> contains (lower (tables ?E) ?html) (str ''reference''))"
    by (simp add: example_env_def ascii_eval)
  have 4: "?dl = (fst ?dl, snd ?dl)"
    by simp
  have r1: "docx_writer ?E (page_title ?E ?html ?url) ?url (page_summary ?E ?cfg ?html)
        (doc_path ?E ?F (str ''.docx'')) = Saved [80, 75]"
    by (simp add: example_env_def)
  have r2: "pdf_writer ?E (page_title ?E ?html ?url) ?url (page_summary ?E ?cfg ?html)
        (doc_path ?E ?F (str ''.pdf'')) = SaveFailed (str ''latin-1'') None"
    by (simp add: example_env_def)
  from pipeline_save_error
    [of ?E ?url ?url ?cfg ?html ?F Map.empty "fst ?dl" "snd ?dl"]
    1 2 example_fetch_news 3 example_folder 4 r1 r2
  have "process_url_pipeline ?E ?cfg ?url Map.empty
          = (Inr (None, str ''save_error: '' @ str ''latin-1''),
             leave_partial None (doc_path ?E ?F (str ''.pdf''))
               ((snd ?dl)(doc_path ?E ?F (str ''.docx'') \<mapsto> [80, 75])))
        \<and> leave_partial None (doc_path ?E ?F (str ''.pdf''))
               ((snd ?dl)(doc_path ?E ?F (str ''.docx'') \<mapsto> [80, 75])) (doc_path ?E ?F (str ''.docx''))
          = Some [80, 75]"
    unfolding Let_def by blast
  then have "fst (process_url_pipeline ?E ?cfg ?url Map.empty) = Inr (None, str ''save_error: latin-1'')
     \<and> snd (process_url_pipeline ?E ?cfg ?url Map.empty) (doc_path ?E ?F (str ''.docx'')) = Some [80, 75]"
    by (simp add: str_def)
  then have "fst (process_url_pipeline ?E ?cfg ?url Map.empty) = Inr (None, str ''save_error: latin-1'')
     \<and> snd (process_url_pipeline ?E ?cfg ?url Map.empty)
          (str ''outputs_final/News/summary_20240309_140507.docx'') = Some [80, 75]"
    unfolding example_docx_path .
  with 1 2 example_fetch_news 3 example_folder r1 r2 show ?thesis by blast
qed

end
